theory Spec2Isabelle
  imports Complex_Main
begin

section \<open>Registers, instructions and circuit graphs\<close>

text \<open>
  A register is a named block of quantum or classical bits, written as the source
  constructs it (\<^verbatim>\<open>QuantumRegister(2, "q")\<close>: the size first). A wire is a pair of a
  register and an index into it; a classical condition is a pair of a classical register
  and the integer value the register must hold.
\<close>

datatype register = QuantumRegister nat string | ClassicalRegister nat string

type_synonym wire = "register \<times> nat"

type_synonym cond = "register \<times> int"

fun reg_size :: "register \<Rightarrow> nat" where
  "reg_size (QuantumRegister n nm) = n"
| "reg_size (ClassicalRegister n nm) = n"

fun is_quantum :: "register \<Rightarrow> bool" where
  "is_quantum (QuantumRegister n nm) = True"
| "is_quantum (ClassicalRegister n nm) = False"

definition bits :: "register \<Rightarrow> wire list" where
  "bits r = map (\<lambda>i. (r, i)) [0..<reg_size r]"

text \<open>
  An instruction carries its name, its parameters (rotation angles; Python floats, read
  here as real numbers), its own operands, the \<^verbatim>\<open>control\<close> attribute, the opaque flag
  (\<^verbatim>\<open>getattr(op, 'opaque', False)\<close>: an absent attribute reads as False) and the
  attribute \<^verbatim>\<open>_decompositions\<close>: absent (None) or a list of rule graphs. A rule graph
  is a circuit graph whose nodes hold instructions again, so the three types are
  mutually recursive. Every node owns its instruction and every instruction its rule
  graphs: values, not shared references.

  A circuit graph keeps its registers, its wires in declaration order, the declared
  basis elements and its operation nodes in topological order. Input and output nodes
  are left out: the passes skip every node that is not an operation.
\<close>

datatype instruction =
  Instruction (name: string) (param: "real list") (qargs: "wire list") (cargs: "wire list")
    (control: "cond option") (opaque: bool) (decompositions: "dag list option")
and dag =
  DAGCircuit (qregs: "register list") (cregs: "register list") (wires: "wire list")
    (basis_elements: "(string \<times> nat \<times> nat \<times> nat) list") (nodes: "opnode list")
and opnode =
  OpNode (op: instruction) (nqargs: "wire list") (ncargs: "wire list")
    (condition: "cond option")

datatype error =
  TranspilerError string string
| StructuralMismatch
| NodeNotFound nat
| BackendPropertyError
| StopIteration
| IndexError
| QiskitError

subsection \<open>Operations of the circuit graph\<close>

text \<open>
  Modelled from the spec: the class DAGCircuit is not among the sources. The spec (4.1)
  gives a topological order with ties broken by insertion order, and the substitution of
  one operation node by a replacement graph along an ordered wire mapping, which fails
  with StructuralMismatch when wire counts or types disagree. The node list of the model
  is that topological order, and a new node is appended at its end.

  A node id is the place of the node in the order at the moment the order is taken. A
  pass walks the ids in increasing order while it replaces or removes nodes at those
  places only, so a node with id \<open>node\<close>, taken when the graph had \<open>n0\<close> nodes, stands
  at \<open>node_position n0 d node\<close> in the graph \<open>d\<close> of the moment: every change so far
  happened before it and moved it by the growth of the graph.
\<close>

definition empty_dag :: dag where
  "empty_dag = DAGCircuit [] [] [] [] []"

definition add_qreg :: "dag \<Rightarrow> register \<Rightarrow> dag" where
  "add_qreg d r =
     (if r \<in> set (qregs d) then d
      else DAGCircuit (qregs d @ [r]) (cregs d) (wires d @ bits r) (basis_elements d) (nodes d))"

definition add_creg :: "dag \<Rightarrow> register \<Rightarrow> dag" where
  "add_creg d r =
     (if r \<in> set (cregs d) then d
      else DAGCircuit (qregs d) (cregs d @ [r]) (wires d @ bits r) (basis_elements d) (nodes d))"

definition add_basis_element :: "dag \<Rightarrow> string \<Rightarrow> nat \<Rightarrow> nat \<Rightarrow> nat \<Rightarrow> dag" where
  "add_basis_element d nm nq nc np =
     DAGCircuit (qregs d) (cregs d) (wires d) (basis_elements d @ [(nm, nq, nc, np)]) (nodes d)"

definition set_nodes :: "dag \<Rightarrow> opnode list \<Rightarrow> dag" where
  "set_nodes d ns = DAGCircuit (qregs d) (cregs d) (wires d) (basis_elements d) ns"

definition apply_operation_back :: "dag \<Rightarrow> instruction \<Rightarrow> cond option \<Rightarrow> dag" where
  "apply_operation_back d i c = set_nodes d (nodes d @ [OpNode i (qargs i) (cargs i) c])"

definition topological_sort :: "dag \<Rightarrow> nat list" where
  "topological_sort d = [0..<length (nodes d)]"

definition get_op_nodes :: "dag \<Rightarrow> nat list" where
  "get_op_nodes d = [0..<length (nodes d)]"

definition node_position :: "nat \<Rightarrow> dag \<Rightarrow> nat \<Rightarrow> nat" where
  "node_position n0 d node = (node + length (nodes d)) - n0"

definition remove_op_node :: "dag \<Rightarrow> nat \<Rightarrow> dag" where
  "remove_op_node d pos = set_nodes d (take pos (nodes d) @ drop (Suc pos) (nodes d))"

definition bits_in_condition :: "cond option \<Rightarrow> wire list" where
  "bits_in_condition c = (case c of None \<Rightarrow> [] | Some (r, v) \<Rightarrow> bits r)"

text \<open>
  The wire mapping is a dictionary built from the pairs of replacement wire and target
  wire (a later pair overwrites an earlier one); a wire with no entry maps to itself.
  The mapping renames the operands of a replacement node. The condition of a node names
  a register and a value; the spec names no renaming for it, and it is carried over as
  it is.
\<close>

definition wire_map :: "wire list \<Rightarrow> wire list \<Rightarrow> wire \<Rightarrow> wire" where
  "wire_map ws ts w = (case map_of (rev (zip ws ts)) w of None \<Rightarrow> w | Some t \<Rightarrow> t)"

definition map_node :: "(wire \<Rightarrow> wire) \<Rightarrow> opnode \<Rightarrow> opnode" where
  "map_node wm m = OpNode (op m) (map wm (nqargs m)) (map wm (ncargs m)) (condition m)"

definition same_kind :: "wire \<Rightarrow> wire \<Rightarrow> bool" where
  "same_kind w t = (is_quantum (fst w) = is_quantum (fst t))"

text \<open>
  The wires a node touches: its quantum operands, its classical operands, then the bits
  of its condition register (the order the Unroller's comment names: "qargs first, then
  cargs, then conditions").
\<close>

definition node_wires :: "opnode \<Rightarrow> wire list" where
  "node_wires nd = nqargs nd @ ncargs nd @ bits_in_condition (condition nd)"

definition spliced :: "opnode \<Rightarrow> dag \<Rightarrow> wire list \<Rightarrow> opnode list" where
  "spliced nd input_circuit ws =
     map (map_node (wire_map ws (node_wires nd))) (nodes input_circuit)"

definition substitute_circuit_one :: "dag \<Rightarrow> nat \<Rightarrow> dag \<Rightarrow> wire list \<Rightarrow> error + dag" where
  "substitute_circuit_one d pos input_circuit ws =
     (if length (nodes d) \<le> pos then Inl (NodeNotFound pos)
      else
        (let nd = nodes d ! pos in
         if length ws \<noteq> length (node_wires nd) \<or> \<not> list_all2 same_kind ws (node_wires nd)
         then Inl StructuralMismatch
         else Inr (set_nodes d
                (take pos (nodes d) @ spliced nd input_circuit ws @ drop (Suc pos) (nodes d)))))"

section \<open>The controlled-u3 gate and its decomposition rule\<close>

text \<open>
  Modelled from the spec: the base class Gate and the gate classes U1Gate, U3Gate and
  CnotGate are not among the sources. A gate class "merely declares a name, parameter
  count, a fixed decomposition rule": a new gate has its name, parameters and quantum
  operands, no classical operands, no control, no opaque attribute, and no rule list
  until one is defined. The rule lists of u1, u3 and cx are parameters of the model.
\<close>

definition Gate :: "string \<Rightarrow> real list \<Rightarrow> wire list \<Rightarrow> instruction" where
  "Gate nm ps qs = Instruction nm ps qs [] None False None"

definition set_decompositions :: "instruction \<Rightarrow> dag list option \<Rightarrow> instruction" where
  "set_decompositions i ds =
     Instruction (name i) (param i) (qargs i) (cargs i) (control i) (opaque i) ds"

definition U1Gate :: "dag list option \<Rightarrow> real \<Rightarrow> wire \<Rightarrow> instruction" where
  "U1Gate ds theta q = set_decompositions (Gate ''u1'' [theta] [q]) ds"

definition U3Gate :: "dag list option \<Rightarrow> real \<Rightarrow> real \<Rightarrow> real \<Rightarrow> wire \<Rightarrow> instruction" where
  "U3Gate ds theta phi lam q = set_decompositions (Gate ''u3'' [theta, phi, lam] [q]) ds"

definition CnotGate :: "dag list option \<Rightarrow> wire \<Rightarrow> wire \<Rightarrow> instruction" where
  "CnotGate ds ctl tgt = set_decompositions (Gate ''cx'' [] [ctl, tgt]) ds"

text \<open>
  \<^verbatim>\<open>Cu3Gate._define_decompositions\<close>: a fresh graph over a register \<^verbatim>\<open>q\<close> of two
  qubits, three basis elements, and the five instructions of the rule applied in order.
  The three arguments are the rule lists of the u1, u3 and cx instances it creates.
\<close>

definition define_decompositions ::
  "dag list option \<Rightarrow> dag list option \<Rightarrow> dag list option \<Rightarrow> instruction \<Rightarrow> instruction" where
  "define_decompositions d1 d3 dx self =
     (let decomposition = empty_dag;
          q = QuantumRegister 2 ''q'';
          decomposition = add_qreg decomposition q;
          decomposition = add_basis_element decomposition ''u1'' 1 0 1;
          decomposition = add_basis_element decomposition ''u3'' 1 0 3;
          decomposition = add_basis_element decomposition ''cx'' 2 0 0;
          rule = [
            U1Gate d1 ((param self ! 2 - param self ! 1) / 2) (q, 1),
            CnotGate dx (q, 0) (q, 1),
            U3Gate d3 (- (param self ! 0) / 2) 0 (- (param self ! 1 + param self ! 2) / 2) (q, 1),
            CnotGate dx (q, 0) (q, 1),
            U3Gate d3 (param self ! 0 / 2) (param self ! 1) 0 (q, 1)
          ];
          decomposition = foldl (\<lambda>d inst. apply_operation_back d inst None) decomposition rule
      in set_decompositions self (Some [decomposition]))"

text \<open>
  \<^verbatim>\<open>Cu3Gate(theta, phi, lam, ctl, tgt)\<close>, with its rule list built (the spec: rules are
  "constructed once per operation instance").
\<close>

definition Cu3Gate ::
  "dag list option \<Rightarrow> dag list option \<Rightarrow> dag list option \<Rightarrow>
   real \<Rightarrow> real \<Rightarrow> real \<Rightarrow> wire \<Rightarrow> wire \<Rightarrow> instruction" where
  "Cu3Gate d1 d3 dx theta phi lam ctl tgt =
     define_decompositions d1 d3 dx (Gate ''cu3'' [theta, phi, lam] [ctl, tgt])"

section \<open>The Unroller pass\<close>

text \<open>
  The amendment of a rule graph used in a conditional context (lines 64 to 75 of
  \<^verbatim>\<open>Unroller.run\<close>): the condition's register is added, every operation node is noted
  with its instruction's \<^verbatim>\<open>control\<close> set to the condition, all operation nodes are
  removed, and the noted instructions are applied again under the condition.
\<close>

definition set_control :: "instruction \<Rightarrow> cond option \<Rightarrow> instruction" where
  "set_control i c =
     Instruction (name i) (param i) (qargs i) (cargs i) c (opaque i) (decompositions i)"

definition replay_with_condition :: "cond \<Rightarrow> dag \<Rightarrow> dag" where
  "replay_with_condition c decomposition_dag =
     (let d = add_creg decomposition_dag (fst c);
          to_replay = map (\<lambda>n_it. set_control (op (nodes d ! n_it)) (Some c)) (topological_sort d);
          n0 = length (nodes d);
          d = foldl (\<lambda>g n. remove_op_node g (node_position n0 g n)) d (get_op_nodes d)
      in foldl (\<lambda>g i. apply_operation_back g i (Some c)) d to_replay)"

text \<open>The body of the loop over the topologically sorted nodes (lines 50 to 86).\<close>

definition unroll_node :: "string list \<Rightarrow> dag \<Rightarrow> nat \<Rightarrow> error + dag" where
  "unroll_node basis d pos =
     (if length (nodes d) \<le> pos then Inl (NodeNotFound pos)
      else
        (let current_node = nodes d ! pos in
         if name (op current_node) \<notin> set basis \<and> \<not> opaque (op current_node) then
           (case decompositions (op current_node) of
              None \<Rightarrow>
                Inl (TranspilerError ''no decomposition rules defined for '' (name (op current_node)))
            | Some [] \<Rightarrow>
                Inl (TranspilerError ''no decomposition rules defined for '' (name (op current_node)))
            | Some (rule0 # others) \<Rightarrow>
                (let decomposition_dag =
                       (case condition current_node of
                          None \<Rightarrow> rule0
                        | Some c \<Rightarrow> replay_with_condition c rule0);
                     qwires = filter (\<lambda>w. is_quantum (fst w)) (wires decomposition_dag);
                     cwires = filter (\<lambda>w. \<not> is_quantum (fst w)) (wires decomposition_dag)
                 in substitute_circuit_one d pos decomposition_dag (qwires @ cwires)))
         else Inr d))"

fun unroll_loop :: "string list \<Rightarrow> nat \<Rightarrow> nat list \<Rightarrow> dag \<Rightarrow> error + dag" where
  "unroll_loop basis n0 [] d = Inr d"
| "unroll_loop basis n0 (node # rest) d =
     (case unroll_node basis d (node_position n0 d node) of
        Inl e \<Rightarrow> Inl e
      | Inr d' \<Rightarrow> unroll_loop basis n0 rest d')"

text \<open>The names of the operations that are not opaque (lines 89 to 92).\<close>

definition gate_set :: "dag \<Rightarrow> string set" where
  "gate_set d = set (map (\<lambda>n. name (op n)) (filter (\<lambda>n. \<not> opaque (op n)) (nodes d)))"

text \<open>
  \<^verbatim>\<open>Unroller.run\<close>: one walk over the nodes of the graph, then the pass again while a
  name outside the basis is left. An error ends the pass with no graph.
\<close>

function Unroller_run :: "string list \<Rightarrow> dag \<Rightarrow> error + dag" where
  "Unroller_run basis d =
     (case unroll_loop basis (length (nodes d)) (topological_sort d) d of
        Inl e \<Rightarrow> Inl e
      | Inr d' \<Rightarrow> if \<not> gate_set d' \<subseteq> set basis then Unroller_run basis d' else Inr d')"
  by pat_completeness auto

text \<open>
  The measure of the recursion: how many rules deep the first rules of an instruction
  reach before every name is in the basis or opaque.
\<close>

fun rule_depth :: "string list \<Rightarrow> instruction \<Rightarrow> nat"
  and dag_depth :: "string list \<Rightarrow> dag \<Rightarrow> nat"
  and node_depth :: "string list \<Rightarrow> opnode \<Rightarrow> nat" where
  "rule_depth basis (Instruction nm ps qa ca ctl opq ds) =
     (if nm \<in> set basis \<or> opq then 0
      else Suc (case ds of Some (d # others) \<Rightarrow> dag_depth basis d | _ \<Rightarrow> 0))"
| "dag_depth basis (DAGCircuit qr cr ws be ns) =
     foldr max (map (node_depth basis) ns) 0"
| "node_depth basis (OpNode i qa ca cn) = rule_depth basis i"

text \<open>
  What one walk does to a single node, and to the nodes in order: the node stays, or the
  nodes of its (amended) first rule take its place with their wires mapped.
\<close>

definition amended_rule :: "opnode \<Rightarrow> dag \<Rightarrow> dag" where
  "amended_rule nd rule0 =
     (case condition nd of None \<Rightarrow> rule0 | Some c \<Rightarrow> replay_with_condition c rule0)"

definition rule_wires :: "dag \<Rightarrow> wire list" where
  "rule_wires dd =
     filter (\<lambda>w. is_quantum (fst w)) (wires dd) @ filter (\<lambda>w. \<not> is_quantum (fst w)) (wires dd)"

definition expand_node :: "string list \<Rightarrow> opnode \<Rightarrow> error + opnode list" where
  "expand_node basis nd =
     (if name (op nd) \<notin> set basis \<and> \<not> opaque (op nd) then
        (case decompositions (op nd) of
           None \<Rightarrow> Inl (TranspilerError ''no decomposition rules defined for '' (name (op nd)))
         | Some [] \<Rightarrow> Inl (TranspilerError ''no decomposition rules defined for '' (name (op nd)))
         | Some (rule0 # others) \<Rightarrow>
             (let dd = amended_rule nd rule0 in
              if length (rule_wires dd) \<noteq> length (node_wires nd)
                 \<or> \<not> list_all2 same_kind (rule_wires dd) (node_wires nd)
              then Inl StructuralMismatch
              else Inr (spliced nd dd (rule_wires dd))))
      else Inr [nd])"

text \<open>A node of a rule as it is applied again under a condition.\<close>

definition conditioned :: "cond \<Rightarrow> opnode \<Rightarrow> opnode" where
  "conditioned c m =
     OpNode (set_control (op m) (Some c)) (qargs (op m)) (cargs (op m)) (Some c)"

definition max_depth :: "string list \<Rightarrow> opnode list \<Rightarrow> nat" where
  "max_depth basis ns = foldr max (map (node_depth basis) ns) 0"

fun expand_nodes :: "string list \<Rightarrow> opnode list \<Rightarrow> error + opnode list" where
  "expand_nodes basis [] = Inr []"
| "expand_nodes basis (nd # rest) =
     (case expand_node basis nd of
        Inl e \<Rightarrow> Inl e
      | Inr new \<Rightarrow>
          (case expand_nodes basis rest of
             Inl e \<Rightarrow> Inl e
           | Inr out \<Rightarrow> Inr (new @ out)))"

text \<open>
  The nodes a walk comes to, in order: it goes on past a node that stays or is replaced,
  and ends at a node where it fails. The nodes the whole pass comes to are those of its
  first walk, then those of the pass it starts again.
\<close>

fun visited :: "string list \<Rightarrow> opnode list \<Rightarrow> opnode list" where
  "visited basis [] = []"
| "visited basis (nd # rest) =
     nd # (case expand_node basis nd of Inl e \<Rightarrow> [] | Inr new \<Rightarrow> visited basis rest)"

function reached :: "string list \<Rightarrow> dag \<Rightarrow> opnode list" where
  "reached basis d =
     visited basis (nodes d) @
     (case unroll_loop basis (length (nodes d)) (topological_sort d) d of
        Inl e \<Rightarrow> []
      | Inr d' \<Rightarrow> if \<not> gate_set d' \<subseteq> set basis then reached basis d' else [])"
  by pat_completeness auto

text \<open>A node outside the basis that is not opaque and has no rule.\<close>

definition no_rule :: "string list \<Rightarrow> opnode \<Rightarrow> bool" where
  "no_rule basis nd =
     (name (op nd) \<notin> set basis \<and> \<not> opaque (op nd)
      \<and> (decompositions (op nd) = None \<or> decompositions (op nd) = Some []))"

text \<open>
  The scenario of the spec: one \<^verbatim>\<open>cu3(pi/2, 0, 0)\<close> with control qubit 0 and target
  qubit 1 of a register of two qubits, under no condition, and the five nodes the
  documented rule gives for it.
\<close>

definition cu3_circuit :: "dag list option \<Rightarrow> dag list option \<Rightarrow> dag list option \<Rightarrow> dag" where
  "cu3_circuit d1 d3 dx =
     (let qr = QuantumRegister 2 ''qr'';
          circuit = add_qreg empty_dag qr
      in apply_operation_back circuit (Cu3Gate d1 d3 dx (pi / 2) 0 0 (qr, 0) (qr, 1)) None)"

definition cu3_unrolled :: "dag list option \<Rightarrow> dag list option \<Rightarrow> dag list option \<Rightarrow> opnode list" where
  "cu3_unrolled d1 d3 dx =
     (let qr = QuantumRegister 2 ''qr''; q = QuantumRegister 2 ''q'';
          theta = pi / 2; phi = 0; lam = 0
      in [OpNode (U1Gate d1 ((lam - phi) / 2) (q, 1)) [(qr, 1)] [] None,
          OpNode (CnotGate dx (q, 0) (q, 1)) [(qr, 0), (qr, 1)] [] None,
          OpNode (U3Gate d3 (- theta / 2) 0 (- (phi + lam) / 2) (q, 1)) [(qr, 1)] [] None,
          OpNode (CnotGate dx (q, 0) (q, 1)) [(qr, 0), (qr, 1)] [] None,
          OpNode (U3Gate d3 (theta / 2) phi 0 (q, 1)) [(qr, 1)] [] None])"

definition cu3_node :: "dag list option \<Rightarrow> dag list option \<Rightarrow> dag list option \<Rightarrow> opnode" where
  "cu3_node d1 d3 dx =
     (let qr = QuantumRegister 2 ''qr''
      in OpNode (Cu3Gate d1 d3 dx (pi / 2) 0 0 (qr, 0) (qr, 1)) [(qr, 0), (qr, 1)] [] None)"

text \<open>The same gate under the condition that a classical register of one bit holds 1, and a
  gate that has no rule.\<close>

definition conditioned_cu3_circuit :: dag where
  "conditioned_cu3_circuit =
     (let qr = QuantumRegister 2 ''qr''; cr = ClassicalRegister 1 ''c'';
          circuit = add_creg (add_qreg empty_dag qr) cr
      in apply_operation_back circuit (Cu3Gate None None None (pi / 2) 0 0 (qr, 0) (qr, 1))
           (Some (cr, 1)))"

definition no_rule_circuit :: dag where
  "no_rule_circuit =
     (let qr = QuantumRegister 1 ''qr''; circuit = add_qreg empty_dag qr
      in apply_operation_back circuit (Gate ''mystery'' [] [(qr, 0)]) None)"

definition conditioned_cu3_unrolled :: "opnode list" where
  "conditioned_cu3_unrolled =
     (let qr = QuantumRegister 2 ''qr''; q = QuantumRegister 2 ''q'';
          c = Some (ClassicalRegister 1 ''c'', 1)
      in [OpNode (set_control (U1Gate None ((0 - 0) / 2) (q, 1)) c) [(qr, 1)] [] c,
          OpNode (set_control (CnotGate None (q, 0) (q, 1)) c) [(qr, 0), (qr, 1)] [] c,
          OpNode (set_control (U3Gate None (- (pi / 2) / 2) 0 (- (0 + 0) / 2) (q, 1)) c) [(qr, 1)] [] c,
          OpNode (set_control (CnotGate None (q, 0) (q, 1)) c) [(qr, 0), (qr, 1)] [] c,
          OpNode (set_control (U3Gate None ((pi / 2) / 2) 0 0 (q, 1)) c) [(qr, 1)] [] c])"

definition conditioned_cu3_node :: opnode where
  "conditioned_cu3_node =
     (let qr = QuantumRegister 2 ''qr''
      in OpNode (Cu3Gate None None None (pi / 2) 0 0 (qr, 0) (qr, 1)) [(qr, 0), (qr, 1)] []
           (Some (ClassicalRegister 1 ''c'', 1)))"

section \<open>The UnitarySynthesis pass\<close>

subsection \<open>The choice of the decomposition bases\<close>

datatype kak_gate = CXGate | CZGate | iSwapGate | RXXGate real | ECRGate

definition kak_gate_names :: "(string \<times> kak_gate) list" where
  "kak_gate_names =
     [(''cx'', CXGate), (''cz'', CZGate), (''iswap'', iSwapGate), (''rxx'', RXXGate (pi / 2)),
      (''ecr'', ECRGate)]"

text \<open>
  \<^verbatim>\<open>_choose_kak_gate\<close>. The source intersects the basis with the known names as a set and
  takes \<^verbatim>\<open>kak_gates.pop()\<close>: the element Python's set hands out, which the language
  leaves arbitrary. The model takes that choice as the parameter \<open>pop\<close>.
  \<^verbatim>\<open>basis_gates or []\<close> reads an absent list as the empty one.
\<close>

definition choose_kak_gate :: "(string set \<Rightarrow> string) \<Rightarrow> string list option \<Rightarrow> kak_gate option" where
  "choose_kak_gate pop basis_gates =
     (let kak_gates = set (case basis_gates of None \<Rightarrow> [] | Some b \<Rightarrow> b) \<inter> set (map fst kak_gate_names)
      in if kak_gates \<noteq> {} then map_of kak_gate_names (pop kak_gates) else None)"

definition euler_basis_names :: "(string \<times> string list) list" where
  "euler_basis_names =
     [(''U3'', [''u3'']), (''U1X'', [''u1'', ''rx'']), (''RR'', [''r'']),
      (''ZYZ'', [''rz'', ''ry'']), (''ZXZ'', [''rz'', ''rx'']), (''XYX'', [''rx'', ''ry''])]"

text \<open>\<^verbatim>\<open>_choose_euler_basis\<close>: the first entry, in the order written, whose gates are all in the basis.\<close>

definition choose_euler_basis :: "string list option \<Rightarrow> string option" where
  "choose_euler_basis basis_gates =
     (let basis_set = set (case basis_gates of None \<Rightarrow> [] | Some b \<Rightarrow> b)
      in map_option fst (find (\<lambda>entry. set (snd entry) \<subseteq> basis_set) euler_basis_names))"

subsection \<open>The pass object and its collaborators\<close>

text \<open>
  Modelled from the spec: the calibration table (BackendProperties) is not among the
  sources. It exposes \<^verbatim>\<open>gate_length(name, qubits)\<close> and \<^verbatim>\<open>gate_error(name, qubits)\<close>,
  each of which "may raise a lookup error per pair": None stands for the raised
  BackendPropertyError. Measured values are read as real numbers.
\<close>

record backend_properties =
  gate_length :: "string \<Rightarrow> nat list \<Rightarrow> real option"
  gate_error :: "string \<Rightarrow> nat list \<Rightarrow> real option"

type_synonym matrix = "complex list list"

text \<open>
  The attributes of the pass, and the \<^verbatim>\<open>layout\<close> entry of the property set (absent, or
  the list of assignments of a Layout object, which is false in a test when it is
  empty). A connectivity map is the list of its directed edges.
\<close>

record unitary_synthesis =
  basis_gates :: "string list option"
  fidelity :: "real option"
  coupling_map :: "(nat \<times> nat) list option"
  backend_props :: "backend_properties option"
  pulse_optimize :: bool
  layout :: "(wire \<times> nat) list option"

text \<open>
  Modelled from the spec: the decomposers are not among the sources. Each is "a pure
  function from a unitary matrix" (and its configuration) "to a short operation
  sequence"; the model takes them as parameters, each composed with
  \<^verbatim>\<open>circuit_to_dag\<close>, together with the matrix of an instruction.
\<close>

record decomposers =
  to_matrix :: "instruction \<Rightarrow> matrix"
  decomposer1q :: "string \<Rightarrow> matrix \<Rightarrow> dag"
  decomposer2q :: "kak_gate \<Rightarrow> string option \<Rightarrow> bool \<Rightarrow> matrix \<Rightarrow> real option \<Rightarrow> dag"
  isometry :: "matrix \<Rightarrow> dag"

text \<open>
  Modelled from the spec: the connectivity map is an "adjacency relation over physical
  qubit indices"; the neighbours of a qubit are the targets of its outgoing edges.
\<close>

definition neighbors :: "(nat \<times> nat) list \<Rightarrow> nat \<Rightarrow> nat list" where
  "neighbors cm i = map snd (filter (\<lambda>e. fst e = i) cm)"

text \<open>
  Modelled from the spec: \<^verbatim>\<open>substitute_node_with_dag\<close> is the substitution of 4.1; with
  no wires given, the replacement's own wires are taken, quantum wires first.
  \<^verbatim>\<open>two_qubit_ops\<close> lists the nodes with two quantum operands, in order, and
  \<^verbatim>\<open>named_nodes\<close> the ids of the nodes with one of the given names.
\<close>

definition substitute_node_with_dag :: "dag \<Rightarrow> nat \<Rightarrow> dag \<Rightarrow> wire list option \<Rightarrow> error + dag" where
  "substitute_node_with_dag d pos input_dag ws =
     substitute_circuit_one d pos input_dag
       (case ws of None \<Rightarrow> rule_wires input_dag | Some w \<Rightarrow> w)"

definition two_qubit_ops :: "dag \<Rightarrow> opnode list" where
  "two_qubit_ops d = filter (\<lambda>n. length (nqargs n) = 2) (nodes d)"

definition named_nodes :: "dag \<Rightarrow> string list \<Rightarrow> nat list" where
  "named_nodes d names = filter (\<lambda>i. name (op (nodes d ! i)) \<in> set names) [0..<length (nodes d)]"


subsection \<open>The natural direction of a two-qubit node\<close>

text \<open>A gate duration, or \<^verbatim>\<open>inf\<close>, the value the source starts from.\<close>

datatype duration = Finite real | Infinity

fun shorter :: "duration \<Rightarrow> duration \<Rightarrow> bool" where
  "shorter (Finite a) (Finite b) = (a < b)"
| "shorter (Finite a) Infinity = True"
| "shorter Infinity b = False"

definition truthy_layout :: "(wire \<times> nat) list option \<Rightarrow> bool" where
  "truthy_layout l = (case l of None \<Rightarrow> False | Some a \<Rightarrow> a \<noteq> [])"

definition truthy_float :: "real option \<Rightarrow> bool" where
  "truthy_float f = (case f of None \<Rightarrow> False | Some x \<Rightarrow> x \<noteq> 0)"

text \<open>
  Lines 137 to 166 of \<^verbatim>\<open>UnitarySynthesis.run\<close>, for a node with two quantum operands:
  the natural direction. With a layout and a connectivity map it is read off the map;
  otherwise, with a layout and calibration properties, off the two gate durations, each
  of which stays \<^verbatim>\<open>inf\<close> when its lookup raises.
\<close>

definition natural_direction :: "unitary_synthesis \<Rightarrow> opnode \<Rightarrow> nat list option" where
  "natural_direction self node =
     (let q0 = snd (nqargs node ! 0); q1 = snd (nqargs node ! 1) in
      if truthy_layout (layout self) \<and> coupling_map self \<noteq> None then
        (case coupling_map self of
           None \<Rightarrow> None
         | Some cm \<Rightarrow>
            (let zero_one = q1 \<in> set (neighbors cm q0);
                 one_zero = q0 \<in> set (neighbors cm q1);
                 direction = (if zero_one \<and> \<not> one_zero then Some [0, 1] else None);
                 direction = (if one_zero \<and> \<not> zero_one then Some [1, 0] else direction)
             in direction))
      else if truthy_layout (layout self) \<and> backend_props self \<noteq> None then
        (case backend_props self of
           None \<Rightarrow> None
         | Some props \<Rightarrow>
            (let len_0_1 = (case gate_length props ''cx'' [q0, q1] of
                              None \<Rightarrow> Infinity | Some l \<Rightarrow> Finite l);
                 len_1_0 = (case gate_length props ''cx'' [q1, q0] of
                              None \<Rightarrow> Infinity | Some l \<Rightarrow> Finite l)
             in if shorter len_0_1 len_1_0 then Some [0, 1]
                else if shorter len_1_0 len_0_1 then Some [1, 0]
                else None))
      else None)"

text \<open>
  Lines 167 to 171: in the branch of the calibration properties, the fidelity and the
  duration of the gate in the natural direction. These two lookups stand outside every
  \<^verbatim>\<open>try\<close>, so a miss there ends the pass.
\<close>

definition physical_gate ::
  "unitary_synthesis \<Rightarrow> opnode \<Rightarrow> nat list option \<Rightarrow> error + (real option \<times> real option)" where
  "physical_gate self node direction =
     (if truthy_layout (layout self) \<and> coupling_map self \<noteq> None then Inr (None, None)
      else if truthy_layout (layout self) \<and> backend_props self \<noteq> None then
        (case (backend_props self, direction) of
           (Some props, Some dir) \<Rightarrow>
             (let qubits = map (\<lambda>i. snd (nqargs node ! i)) dir in
              case gate_error props ''cx'' qubits of
                None \<Rightarrow> Inl BackendPropertyError
              | Some e \<Rightarrow>
                 (case gate_length props ''cx'' qubits of
                    None \<Rightarrow> Inl BackendPropertyError
                  | Some l \<Rightarrow> Inr (Some (1 - e), Some l)))
         | _ \<Rightarrow> Inr (None, None))
      else Inr (None, None))"

subsection \<open>The mirrored matrix\<close>

text \<open>
  Lines 183 to 185: rows 1 and 2 change places, then columns 1 and 2. On a matrix with
  fewer than three rows or columns the indexing raises.
\<close>

definition swap_1_2 :: "'a list \<Rightarrow> 'a list" where
  "swap_1_2 xs = xs[1 := xs ! 2, 2 := xs ! 1]"

definition mirrored :: "matrix \<Rightarrow> error + matrix" where
  "mirrored su4_mat =
     (if length su4_mat < 3 \<or> list_ex (\<lambda>row. length row < 3) su4_mat then Inl IndexError
      else Inr (map swap_1_2 (swap_1_2 su4_mat)))"

subsection \<open>The pass\<close>

text \<open>
  The body of the loop over the named nodes. Lines 127 to 192 find the graph to splice
  in and the wires to splice it along, or leave the node alone (\<^verbatim>\<open>continue\<close>, here
  None); line 194 substitutes.
\<close>

definition synthesis_of ::
  "unitary_synthesis \<Rightarrow> decomposers \<Rightarrow> string option \<Rightarrow> kak_gate option \<Rightarrow> opnode \<Rightarrow>
   error + (dag \<times> wire list option) option" where
  "synthesis_of self ext euler_basis kak node =
     (if length (nqargs node) = 1 then
        (case euler_basis of
           None \<Rightarrow> Inr None
         | Some eb \<Rightarrow> Inr (Some (decomposer1q ext eb (to_matrix ext (op node)), None)))
      else if length (nqargs node) = 2 then
        (case kak of
           None \<Rightarrow> Inr None
         | Some kak_gate \<Rightarrow>
            (let direction = natural_direction self node in
             case physical_gate self node direction of
               Inl e \<Rightarrow> Inl e
             | Inr (physical_gate_fidelity, physical_gate_duration) \<Rightarrow>
                (let basis_fidelity =
                       (if truthy_float (fidelity self) then fidelity self
                        else physical_gate_fidelity);
                     su4_mat = to_matrix ext (op node);
                     synth_dag = decomposer2q ext kak_gate euler_basis (pulse_optimize self)
                                   su4_mat basis_fidelity
                 in if direction \<noteq> None \<and> pulse_optimize self
                       \<and> two_qubit_ops synth_dag \<noteq> []
                       \<and> Some (map snd (nqargs (hd (two_qubit_ops synth_dag)))) \<noteq> direction
                    then
                      (case mirrored su4_mat of
                         Inl e \<Rightarrow> Inl e
                       | Inr su4_mat_mm \<Rightarrow>
                          (let synth_dag = decomposer2q ext kak_gate euler_basis
                                             (pulse_optimize self) su4_mat_mm basis_fidelity
                           in Inr (Some (synth_dag, Some (rev (wires synth_dag))))))
                    else Inr (Some (synth_dag, None)))))
      else Inr (Some (isometry ext (to_matrix ext (op node)), None)))"

definition synthesize_node ::
  "unitary_synthesis \<Rightarrow> decomposers \<Rightarrow> string option \<Rightarrow> kak_gate option \<Rightarrow> dag \<Rightarrow> nat \<Rightarrow> error + dag" where
  "synthesize_node self ext euler_basis kak dg pos =
     (if length (nodes dg) \<le> pos then Inl (NodeNotFound pos)
      else
        (case synthesis_of self ext euler_basis kak (nodes dg ! pos) of
           Inl e \<Rightarrow> Inl e
         | Inr None \<Rightarrow> Inr dg
         | Inr (Some (synth_dag, ws)) \<Rightarrow> substitute_node_with_dag dg pos synth_dag ws))"

fun synthesis_loop ::
  "unitary_synthesis \<Rightarrow> decomposers \<Rightarrow> string option \<Rightarrow> kak_gate option \<Rightarrow>
   nat \<Rightarrow> nat list \<Rightarrow> dag \<Rightarrow> error + dag" where
  "synthesis_loop self ext euler_basis kak n0 [] dg = Inr dg"
| "synthesis_loop self ext euler_basis kak n0 (node # rest) dg =
     (case synthesize_node self ext euler_basis kak dg (node_position n0 dg node) of
        Inl e \<Rightarrow> Inl e
      | Inr dg' \<Rightarrow> synthesis_loop self ext euler_basis kak n0 rest dg')"

definition nodes_to_synthesize :: "unitary_synthesis \<Rightarrow> string list" where
  "nodes_to_synthesize self = (if pulse_optimize self then [''unitary'', ''swap''] else [''unitary''])"

definition UnitarySynthesis_run ::
  "(string set \<Rightarrow> string) \<Rightarrow> unitary_synthesis \<Rightarrow> decomposers \<Rightarrow> dag \<Rightarrow> error + dag" where
  "UnitarySynthesis_run pop self ext dg =
     (let euler_basis = choose_euler_basis (basis_gates self);
          kak_gate = choose_kak_gate pop (basis_gates self)
      in synthesis_loop self ext euler_basis kak_gate (length (nodes dg))
           (named_nodes dg (nodes_to_synthesize self)) dg)"

text \<open>
  What the pass does to a single node and to the nodes in order: each node gives the
  segment of nodes that stands in its place afterwards.
\<close>

definition splice_result :: "opnode \<Rightarrow> dag \<Rightarrow> wire list \<Rightarrow> error + opnode list" where
  "splice_result nd input_circuit ws =
     (if length ws \<noteq> length (node_wires nd) \<or> \<not> list_all2 same_kind ws (node_wires nd)
      then Inl StructuralMismatch
      else Inr (spliced nd input_circuit ws))"

definition synthesize_one ::
  "unitary_synthesis \<Rightarrow> decomposers \<Rightarrow> string option \<Rightarrow> kak_gate option \<Rightarrow> opnode \<Rightarrow>
   error + opnode list" where
  "synthesize_one self ext euler_basis kak nd =
     (case synthesis_of self ext euler_basis kak nd of
        Inl e \<Rightarrow> Inl e
      | Inr None \<Rightarrow> Inr [nd]
      | Inr (Some (synth_dag, ws)) \<Rightarrow>
          splice_result nd synth_dag (case ws of None \<Rightarrow> rule_wires synth_dag | Some w \<Rightarrow> w))"

fun synthesize_nodes ::
  "unitary_synthesis \<Rightarrow> decomposers \<Rightarrow> string option \<Rightarrow> kak_gate option \<Rightarrow> string list \<Rightarrow>
   opnode list \<Rightarrow> error + opnode list list" where
  "synthesize_nodes self ext euler_basis kak names [] = Inr []"
| "synthesize_nodes self ext euler_basis kak names (nd # rest) =
     (case (if name (op nd) \<in> set names then synthesize_one self ext euler_basis kak nd
            else Inr [nd]) of
        Inl e \<Rightarrow> Inl e
      | Inr seg \<Rightarrow>
          (case synthesize_nodes self ext euler_basis kak names rest of
             Inl e \<Rightarrow> Inl e
           | Inr segs \<Rightarrow> Inr (seg # segs)))"

fun named_from :: "string list \<Rightarrow> nat \<Rightarrow> opnode list \<Rightarrow> nat list" where
  "named_from names a [] = []"
| "named_from names a (nd # rest) =
     (if name (op nd) \<in> set names then [a] else []) @ named_from names (Suc a) rest"

subsection \<open>Example passes, collaborators and circuits\<close>

text \<open>
  Graphs a decomposer may return: one u3 gate on one qubit, and one cx gate on a register
  of two qubits with the given control and target.
\<close>

definition example_1q_dag :: dag where
  "example_1q_dag =
     (let q = QuantumRegister 1 ''q''; circuit = add_qreg empty_dag q
      in apply_operation_back circuit (Gate ''u3'' [0, 0, 0] [(q, 0)]) None)"

definition cx_dag :: "nat \<Rightarrow> nat \<Rightarrow> dag" where
  "cx_dag ctl tgt =
     (let q = QuantumRegister 2 ''q''; circuit = add_qreg empty_dag q
      in apply_operation_back circuit (Gate ''cx'' [] [(q, ctl), (q, tgt)]) None)"

text \<open>
  A cx gate between two layers of u3 gates that act as Hadamard gates: the cx gate with
  control and target exchanged, built around the cx on the given operands.
\<close>

definition hcx_dag :: "nat \<Rightarrow> nat \<Rightarrow> dag" where
  "hcx_dag ctl tgt =
     (let q = QuantumRegister 2 ''q''; circuit = add_qreg empty_dag q
      in foldl (\<lambda>d inst. apply_operation_back d inst None) circuit
           [Gate ''u3'' [pi / 2, 0, pi] [(q, 0)], Gate ''u3'' [pi / 2, 0, pi] [(q, 1)],
            Gate ''cx'' [] [(q, ctl), (q, tgt)],
            Gate ''u3'' [pi / 2, 0, pi] [(q, 0)], Gate ''u3'' [pi / 2, 0, pi] [(q, 1)]])"

text \<open>
  The matrix of a node: with qubit 0 as the least significant bit of a row or column
  index, that of the cx gate with control 1 and target 0. Its mirror image (rows 1 and 2
  exchanged, then columns 1 and 2) is the matrix of the cx gate with control 0 and
  target 1.
\<close>

definition cx_matrix :: matrix where
  "cx_matrix = [[1, 0, 0, 0], [0, 1, 0, 0], [0, 0, 0, 1], [0, 0, 1, 0]]"

text \<open>
  Two sets of collaborators, each with a two-qubit decomposer of one orientation. The
  first always puts its cx on the operands (1, 0): the one gate for the matrix above,
  the cx between Hadamard layers for any other matrix. The second always puts its cx on
  the operands (0, 1): the cx between Hadamard layers for the matrix above, the one gate
  for any other matrix.
\<close>

definition rigid_decomposers :: decomposers where
  "rigid_decomposers =
     \<lparr>to_matrix = (\<lambda>i. cx_matrix),
      decomposer1q = (\<lambda>eb m. example_1q_dag),
      decomposer2q = (\<lambda>g eb po m bf. if m = cx_matrix then cx_dag 1 0 else hcx_dag 1 0),
      isometry = (\<lambda>m. empty_dag)\<rparr>"




definition unitary_node :: opnode where
  "unitary_node =
     (let qr = QuantumRegister 2 ''qr''
      in OpNode (Gate ''unitary'' [] [(qr, 0), (qr, 1)]) [(qr, 0), (qr, 1)] [] None)"



text \<open>
  A calibration table with the two cx durations given (None: the lookup raises), a pass
  that has it and no connectivity map, and a pass without pulse optimization with a
  graph of a one-qubit unitary followed by a swap.
\<close>

definition calibration :: "real option \<Rightarrow> real option \<Rightarrow> backend_properties" where
  "calibration l01 l10 =
     \<lparr>gate_length = (\<lambda>nm qs. if qs = [0, 1] then l01 else if qs = [1, 0] then l10 else None),
      gate_error = (\<lambda>nm qs. Some (1 / 100))\<rparr>"

definition calibrated_pass ::
  "real option \<Rightarrow> real option \<Rightarrow> (wire \<times> nat) list option \<Rightarrow> unitary_synthesis" where
  "calibrated_pass l01 l10 lay =
     \<lparr>basis_gates = Some [''u3'', ''cx''], fidelity = Some 1, coupling_map = None,
      backend_props = Some (calibration l01 l10), pulse_optimize = True, layout = lay\<rparr>"

definition identity_layout :: "(wire \<times> nat) list" where
  "identity_layout = [((QuantumRegister 2 ''qr'', 0), 0), ((QuantumRegister 2 ''qr'', 1), 1)]"

definition plain_pass :: unitary_synthesis where
  "plain_pass =
     \<lparr>basis_gates = Some [''u3'', ''cx''], fidelity = Some 1, coupling_map = None,
      backend_props = None, pulse_optimize = False, layout = None\<rparr>"

definition swap_node :: opnode where
  "swap_node =
     (let qr = QuantumRegister 2 ''qr''
      in OpNode (Gate ''swap'' [] [(qr, 0), (qr, 1)]) [(qr, 0), (qr, 1)] [] None)"

definition small_unitary_node :: opnode where
  "small_unitary_node =
     (let qr = QuantumRegister 2 ''qr''
      in OpNode (Gate ''unitary'' [] [(qr, 0)]) [(qr, 0)] [] None)"

definition swap_circuit :: dag where
  "swap_circuit =
     (let qr = QuantumRegister 2 ''qr''; circuit = add_qreg empty_dag qr;
          circuit = apply_operation_back circuit (Gate ''unitary'' [] [(qr, 0)]) None
      in apply_operation_back circuit (Gate ''swap'' [] [(qr, 0), (qr, 1)]) None)"

definition synthesized_u3_node :: opnode where
  "synthesized_u3_node =
     OpNode (Gate ''u3'' [0, 0, 0] [(QuantumRegister 1 ''q'', 0)]) [(QuantumRegister 2 ''qr'', 0)] [] None"

section \<open>Marginal counts\<close>

text \<open>
  A dictionary of counts is an association list in insertion order with distinct keys;
  an assignment replaces the value of a key that is there and appends a new key.
\<close>

fun dict_set :: "('k \<times> 'v) list \<Rightarrow> 'k \<Rightarrow> 'v \<Rightarrow> ('k \<times> 'v) list" where
  "dict_set [] k v = [(k, v)]"
| "dict_set (p # ps) k v = (if fst p = k then (k, v) # ps else p # dict_set ps k v)"

definition remove_spaces :: "string \<Rightarrow> string" where
  "remove_spaces s = filter (\<lambda>c. c \<noteq> CHR '' '') s"

text \<open>\<^verbatim>\<open>bin(j)\<close>: the prefix \<^verbatim>\<open>0b\<close> and the binary digits of \<open>j\<close>.\<close>

fun bin_digits :: "nat \<Rightarrow> string" where
  "bin_digits j =
     (if j < 2 then [if j = 0 then CHR ''0'' else CHR ''1'']
      else bin_digits (j div 2) @ [if j mod 2 = 0 then CHR ''0'' else CHR ''1''])"

definition bin :: "nat \<Rightarrow> string" where
  "bin j = ''0b'' @ bin_digits j"

definition zfill :: "nat \<Rightarrow> string \<Rightarrow> string" where
  "zfill width s = replicate (width - length s) CHR ''0'' @ s"

definition count_keys :: "nat \<Rightarrow> string list" where
  "count_keys num_clbits = map (\<lambda>j. zfill num_clbits (drop 2 (bin j))) [0..<2 ^ num_clbits]"

text \<open>
  The patterns the function builds hold the digits of a key and the class \<^verbatim>\<open>\d\<close> only;
  \<^verbatim>\<open>re.match\<close> matches a pattern at the start of a string.
\<close>

definition digit_class :: string where
  "digit_class = [CHR 0x5C, CHR ''d'']"

definition is_digit :: "char \<Rightarrow> bool" where
  "is_digit c = (c \<in> set ''0123456789'')"

fun re_match :: "string \<Rightarrow> string \<Rightarrow> bool" where
  "re_match [] s = True"
| "re_match [c] s = (case s of [] \<Rightarrow> False | x # xs \<Rightarrow> x = c)"
| "re_match (c # e # p) s =
     (case s of
        [] \<Rightarrow> False
      | x # xs \<Rightarrow>
          if [c, e] = digit_class then is_digit x \<and> re_match p xs
          else x = c \<and> re_match (e # p) xs)"

definition index_of :: "int list \<Rightarrow> int \<Rightarrow> nat" where
  "index_of xs y = length (takeWhile (\<lambda>x. x \<noteq> y) xs)"

definition helper :: "int list \<Rightarrow> string \<Rightarrow> string \<Rightarrow> nat \<Rightarrow> string" where
  "helper indices key x y =
     (if int y \<in> set indices then key ! index_of indices (int y) # x
      else digit_class @ x)"

definition marginal_counts ::
  "(string \<times> int) list \<Rightarrow> int list option \<Rightarrow> bool \<Rightarrow> error + (string \<times> int) list" where
  "marginal_counts counts indices pad_zeros =
     (case counts of
        [] \<Rightarrow> Inl StopIteration
      | first # others \<Rightarrow>
         (let num_clbits = length (remove_spaces (fst first));
              trimmed = foldl (\<lambda>ret kv. dict_set ret (remove_spaces (fst kv)) (snd kv)) [] counts
          in case indices of
               None \<Rightarrow> Inr trimmed
             | Some given \<Rightarrow>
                if set (map int [0..<num_clbits]) = set given then Inr trimmed
                else if \<not> set given \<subseteq> set (map int [0..<num_clbits]) then Inl QiskitError
                else
                 (let indices = rev (sort given);
                      meas_keys = count_keys (length indices);
                      rgx = map (\<lambda>key. foldl (helper indices key) [] [0..<num_clbits]) meas_keys;
                      meas_counts =
                        map (\<lambda>m. foldl (\<lambda>c kv. if re_match m (remove_spaces (fst kv))
                                                then c + snd kv else c) 0 counts) rgx
                  in if pad_zeros then
                       Inr (foldl (\<lambda>ret kv. dict_set ret (fst kv) (snd kv)) []
                              (zip meas_keys meas_counts))
                     else
                       Inr (foldl (\<lambda>ret kv. if snd kv \<noteq> 0 then dict_set ret (fst kv) (snd kv)
                                             else ret) [] (zip meas_keys meas_counts)))))"

definition scenario_counts :: "(string \<times> int) list" where
  "scenario_counts = [(''000'', 10), (''011'', 5), (''101'', 3), (''110'', 2)]"

section \<open>Properties of the circuit graph\<close>

lemma nodes_set_nodes [simp]: "nodes (set_nodes d ns) = ns"
  and qregs_set_nodes [simp]: "qregs (set_nodes d ns) = qregs d"
  and cregs_set_nodes [simp]: "cregs (set_nodes d ns) = cregs d"
  and wires_set_nodes [simp]: "wires (set_nodes d ns) = wires d"
  and basis_elements_set_nodes [simp]: "basis_elements (set_nodes d ns) = basis_elements d"
  and set_nodes_set_nodes [simp]: "set_nodes (set_nodes d ns) ms = set_nodes d ms"
  by (simp_all add: set_nodes_def)

lemma set_nodes_same [simp]: "set_nodes d (nodes d) = d"
  by (cases d) (simp add: set_nodes_def)

lemma nodes_add_creg [simp]: "nodes (add_creg d r) = nodes d"
  by (simp add: add_creg_def)

lemma nodes_apply_all:
  "nodes (foldl (\<lambda>g i. apply_operation_back g i c) d is) =
     nodes d @ map (\<lambda>i. OpNode i (qargs i) (cargs i) c) is"
  by (induction "is" arbitrary: d) (simp_all add: apply_operation_back_def)

lemma frame_apply_all:
  "cregs (foldl (\<lambda>g i. apply_operation_back g i c) d is) = cregs d"
  "wires (foldl (\<lambda>g i. apply_operation_back g i c) d is) = wires d"
  "qregs (foldl (\<lambda>g i. apply_operation_back g i c) d is) = qregs d"
  by (induction "is" arbitrary: d) (simp_all add: apply_operation_back_def)

text \<open>Removing the nodes one id after the other leaves no node.\<close>

lemma remove_all_zipper:
  "length ns \<le> n0 \<Longrightarrow>
   foldl (\<lambda>g n. remove_op_node g (node_position n0 g n)) (set_nodes d ns) [n0 - length ns..<n0] =
     set_nodes d []"
proof (induction ns)
  case Nil
  then show ?case by simp
next
  case (Cons m ns)
  have ids: "[n0 - Suc (length ns)..<n0] = (n0 - Suc (length ns)) # [n0 - length ns..<n0]"
    using Cons.prems by (simp add: upt_conv_Cons Suc_diff_Suc)
  have pos: "node_position n0 (set_nodes d (m # ns)) (n0 - Suc (length ns)) = 0"
    using Cons.prems by (simp add: node_position_def)
  from Cons show ?case
    by (simp add: ids pos remove_op_node_def)
qed

lemma remove_all:
  "foldl (\<lambda>g n. remove_op_node g (node_position (length (nodes d)) g n)) d (get_op_nodes d) =
     set_nodes d []"
  using remove_all_zipper [of "nodes d" "length (nodes d)" d]
  by (simp add: get_op_nodes_def)

section \<open>Properties of the Unroller\<close>

subsection \<open>The amended rule\<close>

lemma nodes_replay:
  "nodes (replay_with_condition c dd) = map (conditioned c) (nodes dd)"
proof -
  have "map (\<lambda>n_it. set_control (op (nodes dd ! n_it)) (Some c)) [0..<length (nodes dd)] =
        map (\<lambda>m. set_control (op m) (Some c)) (nodes dd)"
    by (rule nth_equalityI) simp_all
  then show ?thesis
    using remove_all [of "add_creg dd (fst c)"]
    by (simp add: replay_with_condition_def Let_def topological_sort_def nodes_apply_all
        conditioned_def set_control_def)
qed

lemma cregs_replay:
  "cregs (replay_with_condition c dd) = cregs (add_creg dd (fst c))"
  using remove_all [of "add_creg dd (fst c)"]
  by (simp add: replay_with_condition_def Let_def frame_apply_all)

lemma wires_replay:
  "wires (replay_with_condition c dd) = wires (add_creg dd (fst c))"
  using remove_all [of "add_creg dd (fst c)"]
  by (simp add: replay_with_condition_def Let_def frame_apply_all)

subsection \<open>One walk over the nodes\<close>

lemma unroll_node_zipper:
  "unroll_node basis (set_nodes d (pre @ nd # rest)) (length pre) =
     (case expand_node basis nd of
        Inl e \<Rightarrow> Inl e
      | Inr new \<Rightarrow> Inr (set_nodes d (pre @ new @ rest)))"
  by (simp add: unroll_node_def expand_node_def substitute_circuit_one_def amended_rule_def
      rule_wires_def Let_def split: option.splits list.splits)

lemma unroll_loop_zipper:
  "length rest \<le> n0 \<Longrightarrow>
   unroll_loop basis n0 [n0 - length rest..<n0] (set_nodes d (pre @ rest)) =
     (case expand_nodes basis rest of
        Inl e \<Rightarrow> Inl e
      | Inr out \<Rightarrow> Inr (set_nodes d (pre @ out)))"
proof (induction rest arbitrary: pre)
  case Nil
  then show ?case by simp
next
  case (Cons nd rest)
  have ids: "[n0 - Suc (length rest)..<n0] = (n0 - Suc (length rest)) # [n0 - length rest..<n0]"
    using Cons.prems by (simp add: upt_conv_Cons Suc_diff_Suc)
  have pos: "node_position n0 (set_nodes d (pre @ nd # rest)) (n0 - Suc (length rest)) = length pre"
    using Cons.prems by (simp add: node_position_def)
  show ?case
  proof (cases "expand_node basis nd")
    case (Inl e)
    then show ?thesis by (simp add: ids pos unroll_node_zipper)
  next
    case (Inr new)
    have "length rest \<le> n0" using Cons.prems by simp
    from Cons.IH [OF this, of "pre @ new"] Inr show ?thesis
      by (simp add: ids pos unroll_node_zipper split: sum.splits)
  qed
qed

lemma unroll_loop_all:
  "unroll_loop basis (length (nodes d)) (topological_sort d) d =
     (case expand_nodes basis (nodes d) of
        Inl e \<Rightarrow> Inl e
      | Inr out \<Rightarrow> Inr (set_nodes d out))"
  using unroll_loop_zipper [of "nodes d" "length (nodes d)" basis d "[]"]
  by (simp add: topological_sort_def split: sum.splits)

lemma expand_node_skip:
  "name (op nd) \<in> set basis \<or> opaque (op nd) \<Longrightarrow> expand_node basis nd = Inr [nd]"
  by (auto simp: expand_node_def)

subsection \<open>Termination of the pass\<close>

lemma dag_depth_nodes: "dag_depth basis d = max_depth basis (nodes d)"
  by (cases d) (simp add: max_depth_def)

lemma max_depth_ge: "m \<in> set ns \<Longrightarrow> node_depth basis m \<le> max_depth basis ns"
  by (induction ns) (auto simp: max_depth_def)

lemma max_depth_le: "(\<And>m. m \<in> set ns \<Longrightarrow> node_depth basis m \<le> k) \<Longrightarrow> max_depth basis ns \<le> k"
  by (induction ns) (auto simp: max_depth_def)

lemma node_depth_op: "node_depth basis m = rule_depth basis (op m)"
  by (cases m) simp

lemma rule_depth_sel:
  "rule_depth basis i =
     (if name i \<in> set basis \<or> opaque i then 0
      else Suc (case decompositions i of Some (d # others) \<Rightarrow> dag_depth basis d | _ \<Rightarrow> 0))"
  by (cases i) simp

lemma node_depth_map_node [simp]: "node_depth basis (map_node wm m) = node_depth basis m"
  by (simp add: node_depth_op map_node_def)

lemma node_depth_conditioned [simp]: "node_depth basis (conditioned c m) = node_depth basis m"
  by (simp add: node_depth_op conditioned_def rule_depth_sel set_control_def)

lemma max_depth_amended:
  "max_depth basis (nodes (amended_rule nd rule0)) = max_depth basis (nodes rule0)"
  by (simp add: amended_rule_def nodes_replay max_depth_def comp_def split: option.splits)

lemma expand_node_depth:
  assumes "expand_node basis nd = Inr new" and "m \<in> set new"
  shows "node_depth basis m \<le> node_depth basis nd - 1"
proof (cases "name (op nd) \<notin> set basis \<and> \<not> opaque (op nd)")
  case False
  with assms show ?thesis
    by (auto simp: expand_node_def node_depth_op rule_depth_sel)
next
  case True
  with assms obtain rule0 others where r: "decompositions (op nd) = Some (rule0 # others)"
    and new: "new = spliced nd (amended_rule nd rule0) (rule_wires (amended_rule nd rule0))"
    by (auto simp: expand_node_def Let_def split: option.splits list.splits if_splits)
  from assms(2) new obtain m0 where m0: "m0 \<in> set (nodes (amended_rule nd rule0))"
    and m: "m = map_node (wire_map (rule_wires (amended_rule nd rule0)) (node_wires nd)) m0"
    by (auto simp: spliced_def)
  have "node_depth basis m \<le> max_depth basis (nodes rule0)"
    using max_depth_ge [OF m0, of basis] by (simp add: m max_depth_amended)
  moreover have "node_depth basis nd = Suc (max_depth basis (nodes rule0))"
    using True r by (simp add: node_depth_op rule_depth_sel dag_depth_nodes)
  ultimately show ?thesis by simp
qed

lemma expand_nodes_depth:
  "expand_nodes basis ns = Inr out \<Longrightarrow> m \<in> set out \<Longrightarrow>
   node_depth basis m \<le> max_depth basis ns - 1"
proof (induction ns arbitrary: out)
  case Nil
  then show ?case by simp
next
  case (Cons nd ns)
  from Cons.prems(1) obtain new out' where new: "expand_node basis nd = Inr new"
    and out': "expand_nodes basis ns = Inr out'" and out: "out = new @ out'"
    by (auto split: sum.splits)
  have a: "node_depth basis nd \<le> max_depth basis (nd # ns)"
    and b: "max_depth basis ns \<le> max_depth basis (nd # ns)"
    by (simp_all add: max_depth_def)
  from Cons.prems(2) out consider "m \<in> set new" | "m \<in> set out'" by auto
  then show ?case
  proof cases
    case 1
    from expand_node_depth [OF new 1] a show ?thesis by simp
  next
    case 2
    from Cons.IH [OF out' 2] b show ?thesis by simp
  qed
qed

lemma gate_set_depth:
  "\<not> gate_set d \<subseteq> set basis \<Longrightarrow> 0 < max_depth basis (nodes d)"
proof -
  assume "\<not> gate_set d \<subseteq> set basis"
  then obtain m where m: "m \<in> set (nodes d)" "\<not> opaque (op m)" "name (op m) \<notin> set basis"
    by (auto simp: gate_set_def)
  then have "0 < node_depth basis m"
    by (simp add: node_depth_op rule_depth_sel)
  with max_depth_ge [OF m(1), of basis] show ?thesis by simp
qed

lemma run_decreases:
  assumes "unroll_loop basis (length (nodes d)) (topological_sort d) d = Inr d'"
    and "\<not> gate_set d' \<subseteq> set basis"
  shows "dag_depth basis d' < dag_depth basis d"
proof -
  from assms(1) obtain out where out: "expand_nodes basis (nodes d) = Inr out"
    and d': "d' = set_nodes d out"
    by (auto simp: unroll_loop_all split: sum.splits)
  have pos: "0 < max_depth basis out"
    using gate_set_depth [OF assms(2)] by (simp add: d')
  have le: "max_depth basis out \<le> max_depth basis (nodes d) - 1"
    by (rule max_depth_le) (rule expand_nodes_depth [OF out])
  from pos le show ?thesis
    by (simp add: dag_depth_nodes d')
qed

termination Unroller_run
  by (relation "measure (\<lambda>(basis, d). dag_depth basis d)") (auto intro: run_decreases)

declare Unroller_run.simps [simp del]

termination reached
  by (relation "measure (\<lambda>(basis, d). dag_depth basis d)") (auto intro: run_decreases)

declare reached.simps [simp del]

subsection \<open>The scenario of the controlled-u3 gate\<close>

lemma cu3_nodes: "nodes (cu3_circuit d1 d3 dx) = [cu3_node d1 d3 dx]"
  by (simp add: cu3_circuit_def cu3_node_def Let_def apply_operation_back_def add_qreg_def
      empty_dag_def Cu3Gate_def define_decompositions_def set_decompositions_def Gate_def)

lemma cu3_expand:
  "expand_node [''u1'', ''u3'', ''cx''] (cu3_node d1 d3 dx) = Inr (cu3_unrolled d1 d3 dx)"
  by (simp add: expand_node_def cu3_node_def Cu3Gate_def define_decompositions_def
      set_decompositions_def
      Gate_def Let_def amended_rule_def rule_wires_def empty_dag_def add_qreg_def
      add_basis_element_def apply_operation_back_def set_nodes_def bits_def node_wires_def
      bits_in_condition_def same_kind_def spliced_def map_node_def wire_map_def
      cu3_unrolled_def U1Gate_def U3Gate_def CnotGate_def upt_rec)

lemma cu3_gate_set:
  "gate_set (set_nodes d (cu3_unrolled d1 d3 dx)) \<subseteq> set [''u1'', ''u3'', ''cx'']"
  by (simp add: gate_set_def cu3_unrolled_def Let_def U1Gate_def U3Gate_def CnotGate_def
      set_decompositions_def Gate_def)

lemma cu3_run:
  "Unroller_run [''u1'', ''u3'', ''cx''] (cu3_circuit d1 d3 dx) =
     Inr (set_nodes (cu3_circuit d1 d3 dx) (cu3_unrolled d1 d3 dx))"
proof -
  let ?c = "cu3_circuit d1 d3 dx"
  have "unroll_loop [''u1'', ''u3'', ''cx''] (length (nodes ?c)) (topological_sort ?c) ?c =
          Inr (set_nodes ?c (cu3_unrolled d1 d3 dx))"
    unfolding unroll_loop_all by (simp add: cu3_nodes cu3_expand)
  then show ?thesis
    using cu3_gate_set [of ?c d1 d3 dx] by (subst Unroller_run.simps) simp
qed

text \<open>
  C1. For \<^verbatim>\<open>cu3(pi/2, 0, 0)\<close> on control qubit 0 and target qubit 1, the basis u1, u3,
  cx and no condition, the Unroller returns the graph whose nodes are exactly
  \<^verbatim>\<open>u1((lam-phi)/2)\<close>, \<^verbatim>\<open>cx\<close>, \<^verbatim>\<open>u3(-theta/2, 0, -(phi+lam)/2)\<close>, \<^verbatim>\<open>cx\<close>,
  \<^verbatim>\<open>u3(theta/2, phi, 0)\<close> on the wires (1), (0,1), (1), (0,1), (1), none of them under
  a condition, whatever rules the u1, u3 and cx instances carry.
\<close>

theorem cu3_scenario:
  "Unroller_run [''u1'', ''u3'', ''cx''] (cu3_circuit d1 d3 dx) =
     Inr (set_nodes (cu3_circuit d1 d3 dx) (cu3_unrolled d1 d3 dx))
   \<and> map (\<lambda>n. (name (op n), param (op n), map snd (nqargs n), condition n)) (cu3_unrolled d1 d3 dx) =
       [(''u1'', [(0 - 0) / 2], [1], None),
        (''cx'', [], [0, 1], None),
        (''u3'', [- (pi / 2) / 2, 0, - (0 + 0) / 2], [1], None),
        (''cx'', [], [0, 1], None),
        (''u3'', [(pi / 2) / 2, 0, 0], [1], None)]"
  by (simp add: cu3_run) (simp add: cu3_unrolled_def Let_def U1Gate_def U3Gate_def CnotGate_def
      set_decompositions_def Gate_def)

subsection \<open>Conditions\<close>

lemma cregs_add_creg:
  "cregs (add_creg d r) = (if r \<in> set (cregs d) then cregs d else cregs d @ [r])"
  by (simp add: add_creg_def)

lemma control_conditioned [simp]:
  "condition (conditioned c m) = Some c" "control (op (conditioned c m)) = Some c"
  by (simp_all add: conditioned_def set_control_def)

lemma condition_map_node [simp]:
  "condition (map_node wm m) = condition m" "op (map_node wm m) = op m"
  by (simp_all add: map_node_def)

lemma unroll_node_at:
  assumes "pos < length (nodes d)"
  shows "unroll_node basis d pos =
     (case expand_node basis (nodes d ! pos) of
        Inl e \<Rightarrow> Inl e
      | Inr new \<Rightarrow> Inr (set_nodes d (take pos (nodes d) @ new @ drop (Suc pos) (nodes d))))"
proof -
  have ns: "nodes d = take pos (nodes d) @ nodes d ! pos # drop (Suc pos) (nodes d)"
    using assms by (simp add: id_take_nth_drop [symmetric])
  have "unroll_node basis (set_nodes d (take pos (nodes d) @ nodes d ! pos # drop (Suc pos) (nodes d)))
          (length (take pos (nodes d))) =
        (case expand_node basis (nodes d ! pos) of
           Inl e \<Rightarrow> Inl e
         | Inr new \<Rightarrow> Inr (set_nodes d (take pos (nodes d) @ new @ drop (Suc pos) (nodes d))))"
    by (rule unroll_node_zipper)
  moreover have "length (take pos (nodes d)) = pos" using assms by simp
  ultimately show ?thesis using ns by simp
qed

lemma expand_node_conditioned:
  assumes "expand_node basis nd = Inr new"
    and "\<not> (name (op nd) \<in> set basis \<or> opaque (op nd))"
  shows "\<exists>rule0 others. decompositions (op nd) = Some (rule0 # others)
           \<and> length new = length (nodes rule0)
           \<and> (case condition nd of
                Some c \<Rightarrow> list_all (\<lambda>m. condition m = Some c \<and> control (op m) = Some c) new
              | None \<Rightarrow> map condition new = map condition (nodes rule0))"
proof -
  from assms obtain rule0 others where r: "decompositions (op nd) = Some (rule0 # others)"
    and new: "new = spliced nd (amended_rule nd rule0) (rule_wires (amended_rule nd rule0))"
    by (auto simp: expand_node_def Let_def split: option.splits list.splits if_splits)
  have "length new = length (nodes rule0)"
    by (simp add: new spliced_def amended_rule_def nodes_replay split: option.splits)
  moreover have "case condition nd of
                Some c \<Rightarrow> list_all (\<lambda>m. condition m = Some c \<and> control (op m) = Some c) new
              | None \<Rightarrow> map condition new = map condition (nodes rule0)"
    by (simp add: new spliced_def amended_rule_def nodes_replay list_all_iff comp_def
        split: option.splits)
  ultimately show ?thesis using r by blast
qed

text \<open>
  C2. When the loop body leaves a graph, every node but the one at the visited place is
  as it was. A node in the basis or opaque stays. Otherwise the nodes of the first rule
  take its place, one for one: if the node carried the condition \<open>c\<close>, each of them
  carries exactly \<open>c\<close> (on the node and as the \<^verbatim>\<open>control\<close> of its instruction) and the
  register of \<open>c\<close> is among the classical registers of the replacement graph, added
  when it was not there; if the node carried no condition, each of them has the
  condition it has in the rule, so none acquires one.
\<close>

theorem condition_preservation:
  assumes "pos < length (nodes d)" and "unroll_node basis d pos = Inr d'"
  shows "\<exists>new. nodes d' = take pos (nodes d) @ new @ drop (Suc pos) (nodes d) \<and>
     (if name (op (nodes d ! pos)) \<in> set basis \<or> opaque (op (nodes d ! pos))
      then new = [nodes d ! pos]
      else \<exists>rule0 others.
             decompositions (op (nodes d ! pos)) = Some (rule0 # others)
             \<and> length new = length (nodes rule0)
             \<and> (case condition (nodes d ! pos) of
                  Some c \<Rightarrow>
                    list_all (\<lambda>m. condition m = Some c \<and> control (op m) = Some c) new
                    \<and> cregs (replay_with_condition c rule0) =
                        (if fst c \<in> set (cregs rule0) then cregs rule0 else cregs rule0 @ [fst c])
                | None \<Rightarrow> map condition new = map condition (nodes rule0)))"
proof -
  from assms obtain new where e: "expand_node basis (nodes d ! pos) = Inr new"
    and d': "d' = set_nodes d (take pos (nodes d) @ new @ drop (Suc pos) (nodes d))"
    by (auto simp: unroll_node_at split: sum.splits)
  show ?thesis
  proof (cases "name (op (nodes d ! pos)) \<in> set basis \<or> opaque (op (nodes d ! pos))")
    case True
    with e have "new = [nodes d ! pos]" by (auto simp: expand_node_skip)
    with True d' show ?thesis by auto
  next
    case False
    from expand_node_conditioned [OF e False] obtain rule0 others where
      r: "decompositions (op (nodes d ! pos)) = Some (rule0 # others)"
      and l: "length new = length (nodes rule0)"
      and c: "case condition (nodes d ! pos) of
                Some c \<Rightarrow> list_all (\<lambda>m. condition m = Some c \<and> control (op m) = Some c) new
              | None \<Rightarrow> map condition new = map condition (nodes rule0)"
      by blast
    have "case condition (nodes d ! pos) of
                  Some c \<Rightarrow>
                    list_all (\<lambda>m. condition m = Some c \<and> control (op m) = Some c) new
                    \<and> cregs (replay_with_condition c rule0) =
                        (if fst c \<in> set (cregs rule0) then cregs rule0 else cregs rule0 @ [fst c])
                | None \<Rightarrow> map condition new = map condition (nodes rule0)"
      using c by (auto simp: cregs_replay cregs_add_creg split: option.splits)
    with False r l d' show ?thesis by auto
  qed
qed

lemma conditioned_cu3_nodes: "nodes conditioned_cu3_circuit = [conditioned_cu3_node]"
  by (simp add: conditioned_cu3_circuit_def conditioned_cu3_node_def Let_def
      apply_operation_back_def add_qreg_def add_creg_def
      empty_dag_def Cu3Gate_def define_decompositions_def set_decompositions_def Gate_def)

lemma conditioned_cu3_expand:
  "expand_node [''u1'', ''u3'', ''cx''] conditioned_cu3_node = Inr conditioned_cu3_unrolled"
  by (simp add: expand_node_def conditioned_cu3_node_def Cu3Gate_def define_decompositions_def
      set_decompositions_def Gate_def Let_def amended_rule_def rule_wires_def wires_replay
      nodes_replay conditioned_def set_control_def empty_dag_def add_qreg_def add_creg_def
      add_basis_element_def apply_operation_back_def set_nodes_def bits_def node_wires_def
      bits_in_condition_def same_kind_def spliced_def map_node_def wire_map_def
      conditioned_cu3_unrolled_def U1Gate_def U3Gate_def CnotGate_def upt_rec)

lemma conditioned_cu3_step:
  "unroll_node [''u1'', ''u3'', ''cx''] conditioned_cu3_circuit 0 =
     Inr (set_nodes conditioned_cu3_circuit conditioned_cu3_unrolled)"
  using unroll_node_zipper [of "[''u1'', ''u3'', ''cx'']" conditioned_cu3_circuit "[]"
      conditioned_cu3_node "[]"]
  by (simp add: conditioned_cu3_nodes [symmetric] conditioned_cu3_expand)

theorem condition_preservation_witness:
  "0 < length (nodes conditioned_cu3_circuit)
   \<and> unroll_node [''u1'', ''u3'', ''cx''] conditioned_cu3_circuit 0 =
       Inr (set_nodes conditioned_cu3_circuit conditioned_cu3_unrolled)
   \<and> list_all (\<lambda>m. condition m = Some (ClassicalRegister 1 ''c'', 1)) conditioned_cu3_unrolled"
proof -
  have a: "0 < length (nodes conditioned_cu3_circuit)"
    by (simp add: conditioned_cu3_nodes)
  note b = conditioned_cu3_step
  from condition_preservation [OF a b]
  have "list_all (\<lambda>m. condition m = Some (ClassicalRegister 1 ''c'', 1)) conditioned_cu3_unrolled"
    by (auto simp: conditioned_cu3_nodes conditioned_cu3_node_def Cu3Gate_def
        define_decompositions_def set_decompositions_def Gate_def Let_def list_all_iff)
  with a b show ?thesis by simp
qed

subsection \<open>Basis closure and idempotence\<close>

lemma gate_set_subset:
  "gate_set d \<subseteq> set basis \<longleftrightarrow> (\<forall>n\<in>set (nodes d). \<not> opaque (op n) \<longrightarrow> name (op n) \<in> set basis)"
  by (auto simp: gate_set_def)

lemma run_closure: "Unroller_run basis d = Inr d' \<Longrightarrow> gate_set d' \<subseteq> set basis"
proof (induction basis d rule: Unroller_run.induct)
  case (1 basis d)
  show ?case
  proof (cases "unroll_loop basis (length (nodes d)) (topological_sort d) d")
    case (Inl e)
    with "1.prems" show ?thesis by (simp add: Unroller_run.simps [of basis d])
  next
    case (Inr d1)
    show ?thesis
    proof (cases "gate_set d1 \<subseteq> set basis")
      case True
      with Inr "1.prems" show ?thesis by (simp add: Unroller_run.simps [of basis d])
    next
      case False
      with Inr "1.prems" have "Unroller_run basis d1 = Inr d'"
        by (simp add: Unroller_run.simps [of basis d])
      with "1.IH" [OF Inr False] show ?thesis by simp
    qed
  qed
qed

text \<open>
  C3. Every rule set of the model is acyclic (a rule graph is a finite value), and the
  pass terminates on every graph. When it returns a graph, every node of that graph
  that is not opaque has a name of the basis.
\<close>

theorem basis_closure:
  "Unroller_run basis d = Inr d' \<Longrightarrow> n \<in> set (nodes d') \<Longrightarrow> \<not> opaque (op n) \<Longrightarrow>
   name (op n) \<in> set basis"
  using run_closure [of basis d d'] by (auto simp: gate_set_subset)

theorem basis_closure_witness:
  "Unroller_run [''u1'', ''u3'', ''cx''] (cu3_circuit None None None) =
     Inr (set_nodes (cu3_circuit None None None) (cu3_unrolled None None None))
   \<and> hd (cu3_unrolled None None None)
       \<in> set (nodes (set_nodes (cu3_circuit None None None) (cu3_unrolled None None None)))
   \<and> \<not> opaque (op (hd (cu3_unrolled None None None)))
   \<and> name (op (hd (cu3_unrolled None None None))) \<in> set [''u1'', ''u3'', ''cx'']"
proof -
  have a: "Unroller_run [''u1'', ''u3'', ''cx''] (cu3_circuit None None None) =
     Inr (set_nodes (cu3_circuit None None None) (cu3_unrolled None None None))"
    by (rule cu3_run)
  have b: "hd (cu3_unrolled None None None)
       \<in> set (nodes (set_nodes (cu3_circuit None None None) (cu3_unrolled None None None)))"
    by (simp add: cu3_unrolled_def Let_def)
  have c: "\<not> opaque (op (hd (cu3_unrolled None None None)))"
    by (simp add: cu3_unrolled_def Let_def U1Gate_def set_decompositions_def Gate_def)
  from basis_closure [OF a b c] a b c show ?thesis by simp
qed

lemma expand_nodes_conformant:
  "(\<And>n. n \<in> set ns \<Longrightarrow> \<not> opaque (op n) \<Longrightarrow> name (op n) \<in> set basis) \<Longrightarrow>
   expand_nodes basis ns = Inr ns"
proof (induction ns)
  case Nil
  then show ?case by simp
next
  case (Cons nd ns)
  have "expand_node basis nd = Inr [nd]"
    using Cons.prems [of nd] by (auto intro: expand_node_skip)
  moreover have "expand_nodes basis ns = Inr ns"
    using Cons.prems by (intro Cons.IH) auto
  ultimately show ?case by simp
qed

lemma run_conformant: "gate_set d \<subseteq> set basis \<Longrightarrow> Unroller_run basis d = Inr d"
proof -
  assume g: "gate_set d \<subseteq> set basis"
  then have "expand_nodes basis (nodes d) = Inr (nodes d)"
    by (intro expand_nodes_conformant) (auto simp: gate_set_subset)
  then have "unroll_loop basis (length (nodes d)) (topological_sort d) d = Inr d"
    by (simp add: unroll_loop_all)
  with g show ?thesis by (simp add: Unroller_run.simps [of basis d])
qed

text \<open>
  C9. On a graph in which every operation that is not opaque has a name of the basis,
  the pass returns the graph as it is; so the pass run on the graph a first run
  returned gives that graph again.
\<close>

theorem unroller_idempotent:
  "((\<forall>n\<in>set (nodes d). \<not> opaque (op n) \<longrightarrow> name (op n) \<in> set basis) \<longrightarrow> Unroller_run basis d = Inr d)
   \<and> (Unroller_run basis d = Inr d' \<longrightarrow> Unroller_run basis d' = Inr d')"
  using run_conformant [of d basis] run_conformant [of d' basis] run_closure [of basis d d']
  by (auto simp: gate_set_subset)

theorem unroller_idempotent_witness:
  "gate_set (set_nodes (cu3_circuit None None None) (cu3_unrolled None None None))
     \<subseteq> set [''u1'', ''u3'', ''cx'']
   \<and> Unroller_run [''u1'', ''u3'', ''cx'']
       (set_nodes (cu3_circuit None None None) (cu3_unrolled None None None)) =
     Inr (set_nodes (cu3_circuit None None None) (cu3_unrolled None None None))
   \<and> Unroller_run [''u1'', ''u3'', ''cx''] (cu3_circuit None None None) =
     Inr (set_nodes (cu3_circuit None None None) (cu3_unrolled None None None))"
proof -
  let ?d = "set_nodes (cu3_circuit None None None) (cu3_unrolled None None None)"
  have g: "gate_set ?d \<subseteq> set [''u1'', ''u3'', ''cx'']"
    by (rule cu3_gate_set)
  have a: "Unroller_run [''u1'', ''u3'', ''cx''] (cu3_circuit None None None) = Inr ?d"
    by (rule cu3_run)
  from unroller_idempotent [of "cu3_circuit None None None" "[''u1'', ''u3'', ''cx'']" ?d] a
  have "Unroller_run [''u1'', ''u3'', ''cx''] ?d = Inr ?d" by blast
  with g a show ?thesis by simp
qed

subsection \<open>The missing rule\<close>

lemma expand_node_no_rule:
  "expand_node basis nd = Inl (TranspilerError msg nm) \<longleftrightarrow>
     msg = ''no decomposition rules defined for '' \<and> no_rule basis nd \<and> name (op nd) = nm"
  by (auto simp: expand_node_def no_rule_def Let_def split: option.splits list.splits)

lemma expand_nodes_no_rule:
  "expand_nodes basis ns = Inl (TranspilerError msg nm) \<longleftrightarrow>
     msg = ''no decomposition rules defined for ''
     \<and> (\<exists>nd\<in>set (visited basis ns). no_rule basis nd \<and> name (op nd) = nm)"
proof (induction ns)
  case Nil
  then show ?case by simp
next
  case (Cons nd ns)
  show ?case
  proof (cases "expand_node basis nd")
    case (Inl e)
    then show ?thesis
      using expand_node_no_rule [of basis nd msg nm] by (cases e) auto
  next
    case (Inr new)
    then have "\<not> no_rule basis nd"
      using expand_node_no_rule [of basis nd "''no decomposition rules defined for ''" "name (op nd)"]
      by auto
    with Inr Cons.IH show ?thesis
      by (auto split: sum.splits)
  qed
qed

lemma visited_ok:
  "expand_nodes basis ns = Inr out \<Longrightarrow> nd \<in> set (visited basis ns) \<Longrightarrow> \<not> no_rule basis nd"
  using expand_nodes_no_rule [of basis ns "''no decomposition rules defined for ''" "name (op nd)"]
  by auto

text \<open>
  C4. The pass ends with the error "no decomposition rules defined for" and a name
  exactly when it comes to a node of that name which is outside the basis, not opaque,
  and whose rule list is absent or empty. The nodes it comes to are those of its first
  walk up to the node where that walk fails, and then those of the pass it starts
  again, so the error of a later walk is the error of the whole pass. The result is
  then the error and no graph.
\<close>

theorem no_rule_error_iff:
  "Unroller_run basis d = Inl (TranspilerError msg nm) \<longleftrightarrow>
     msg = ''no decomposition rules defined for ''
     \<and> (\<exists>nd\<in>set (reached basis d). no_rule basis nd \<and> name (op nd) = nm)"
proof (induction basis d rule: Unroller_run.induct)
  case (1 basis d)
  let ?walk = "unroll_loop basis (length (nodes d)) (topological_sort d) d"
  show ?case
  proof (cases "expand_nodes basis (nodes d)")
    case (Inl e)
    then have w: "?walk = Inl e" by (simp add: unroll_loop_all)
    have "Unroller_run basis d = Inl e"
      using w by (simp add: Unroller_run.simps [of basis d])
    moreover have "reached basis d = visited basis (nodes d)"
      using w by (simp add: reached.simps [of basis d])
    ultimately show ?thesis
      using expand_nodes_no_rule [of basis "nodes d" msg nm] Inl by simp
  next
    case (Inr out)
    then have w: "?walk = Inr (set_nodes d out)" by (simp add: unroll_loop_all)
    have ok: "\<And>nd. nd \<in> set (visited basis (nodes d)) \<Longrightarrow> \<not> no_rule basis nd"
      using visited_ok [OF Inr] .
    show ?thesis
    proof (cases "gate_set (set_nodes d out) \<subseteq> set basis")
      case True
      have "Unroller_run basis d = Inr (set_nodes d out)"
        using w True by (simp add: Unroller_run.simps [of basis d])
      moreover have "reached basis d = visited basis (nodes d)"
        using w True by (simp add: reached.simps [of basis d])
      ultimately show ?thesis using ok by auto
    next
      case False
      have "Unroller_run basis d = Unroller_run basis (set_nodes d out)"
        using w False by (simp add: Unroller_run.simps [of basis d])
      moreover have "reached basis d = visited basis (nodes d) @ reached basis (set_nodes d out)"
        using w False by (simp add: reached.simps [of basis d])
      ultimately show ?thesis
        using "1.IH" [OF w False] ok by auto
    qed
  qed
qed

lemma no_rule_nodes:
  "nodes no_rule_circuit =
     [OpNode (Gate ''mystery'' [] [(QuantumRegister 1 ''qr'', 0)]) [(QuantumRegister 1 ''qr'', 0)] [] None]"
  by (simp add: no_rule_circuit_def Let_def apply_operation_back_def add_qreg_def empty_dag_def Gate_def)

lemma no_rule_reached:
  "reached [''u1'', ''u3'', ''cx''] no_rule_circuit = nodes no_rule_circuit"
  by (subst reached.simps) (simp add: unroll_loop_all, simp add: no_rule_nodes expand_node_def Gate_def)

theorem no_rule_error_iff_witness:
  "Unroller_run [''u1'', ''u3'', ''cx''] no_rule_circuit =
     Inl (TranspilerError ''no decomposition rules defined for '' ''mystery'')"
proof -
  have "\<exists>nd\<in>set (reached [''u1'', ''u3'', ''cx''] no_rule_circuit).
          no_rule [''u1'', ''u3'', ''cx''] nd \<and> name (op nd) = ''mystery''"
    by (simp add: no_rule_reached) (simp add: no_rule_nodes no_rule_def Gate_def)
  then show ?thesis
    using no_rule_error_iff [of "[''u1'', ''u3'', ''cx'']" no_rule_circuit
        "''no decomposition rules defined for ''" "''mystery''"]
    by simp
qed

section \<open>Properties of the UnitarySynthesis pass\<close>

subsection \<open>The choice of the two-qubit gate\<close>

text \<open>
  C5, as the code has it. The gate chosen is the entry of the element that the set hands
  out: for the basis cx, cz it is the cx gate when the set hands out cx and the cz gate
  when it hands out cz. No order of priority decides.
\<close>

theorem kak_gate_follows_pop:
  "choose_kak_gate pop (Some [''cx'', ''cz'']) = map_of kak_gate_names (pop {''cx'', ''cz''})
   \<and> choose_kak_gate (\<lambda>s. ''cx'') (Some [''cx'', ''cz'']) = Some CXGate
   \<and> choose_kak_gate (\<lambda>s. ''cz'') (Some [''cx'', ''cz'']) = Some CZGate"
proof -
  have "set [''cx'', ''cz''] \<inter> set (map fst kak_gate_names) = {''cx'', ''cz''}"
    by (auto simp: kak_gate_names_def)
  then show ?thesis
    by (simp add: choose_kak_gate_def) (simp add: kak_gate_names_def)
qed

lemma kak_cx: "choose_kak_gate (\<lambda>s. ''cx'') (Some [''u3'', ''cx'']) = Some CXGate"
  by (simp add: choose_kak_gate_def kak_gate_names_def)

lemma euler_u3: "choose_euler_basis (Some [''u3'', ''cx'']) = Some ''U3''"
  by (simp add: choose_euler_basis_def euler_basis_names_def)

subsection \<open>The natural direction from gate durations\<close>



lemma unitary_node_sel:
  "nqargs unitary_node = [(QuantumRegister 2 ''qr'', 0), (QuantumRegister 2 ''qr'', 1)]"
  "ncargs unitary_node = []" "condition unitary_node = None"
  "name (op unitary_node) = ''unitary''"
  by (simp_all add: unitary_node_def Let_def Gate_def)

lemma calibrated_sel:
  "coupling_map (calibrated_pass l01 l10 lay) = None"
  "backend_props (calibrated_pass l01 l10 lay) = Some (calibration l01 l10)"
  "layout (calibrated_pass l01 l10 lay) = lay"
  "gate_length (calibration l01 l10) nm qs =
     (if qs = [0, 1] then l01 else if qs = [1, 0] then l10 else None)"
  by (simp_all add: calibrated_pass_def calibration_def)

text \<open>
  C6, as the code has it. With a layout, no connectivity map and calibration properties,
  the natural direction of a two-qubit node follows the two cx durations: of two
  measured durations the strictly shorter one decides and equal ones assert nothing;
  when both are unavailable nothing is asserted; when exactly one is available, its
  direction is asserted, since the other stays infinite. Without a layout no natural
  direction is asserted, whatever the map and the durations are.
\<close>

theorem natural_direction_by_duration:
  "(truthy_layout (layout self) \<longrightarrow> coupling_map self = None \<longrightarrow>
    backend_props self = Some props \<longrightarrow>
    q0 = snd (nqargs node ! 0) \<longrightarrow> q1 = snd (nqargs node ! 1) \<longrightarrow>
    natural_direction self node =
      (case (gate_length props ''cx'' [q0, q1], gate_length props ''cx'' [q1, q0]) of
         (Some a, Some b) \<Rightarrow> if a < b then Some [0, 1] else if b < a then Some [1, 0] else None
       | (Some a, None) \<Rightarrow> Some [0, 1]
       | (None, Some b) \<Rightarrow> Some [1, 0]
       | (None, None) \<Rightarrow> None))
   \<and> (\<not> truthy_layout (layout self) \<longrightarrow> natural_direction self node = None)"
  by (simp add: natural_direction_def Let_def split: option.splits)

theorem natural_direction_by_duration_witness:
  "natural_direction (calibrated_pass (Some 1) (Some 2) (Some identity_layout)) unitary_node = Some [0, 1]
   \<and> natural_direction (calibrated_pass (Some 3) (Some 5) None) unitary_node = None"
proof -
  have "natural_direction (calibrated_pass (Some 1) (Some 2) (Some identity_layout)) unitary_node =
          Some [0, 1]"
    using natural_direction_by_duration [of "calibrated_pass (Some 1) (Some 2) (Some identity_layout)"
        "calibration (Some 1) (Some 2)" 0 unitary_node 1, THEN conjunct1]
    by (simp add: calibrated_sel truthy_layout_def identity_layout_def unitary_node_sel)
  moreover have "natural_direction (calibrated_pass (Some 3) (Some 5) None) unitary_node = None"
    using natural_direction_by_duration [of "calibrated_pass (Some 3) (Some 5) None" _ _
        unitary_node, THEN conjunct2]
    by (simp add: calibrated_sel truthy_layout_def)
  ultimately show ?thesis by simp
qed

text \<open>
  Where the claim fails: with the duration of 0 -> 1 measured and that of 1 -> 0
  unavailable the direction 0 -> 1 is asserted; and without a layout no direction is
  asserted although the measured durations differ.
\<close>

theorem natural_direction_by_duration_counterexample:
  "natural_direction (calibrated_pass (Some 1) None (Some identity_layout)) unitary_node = Some [0, 1]
   \<and> gate_length (calibration (Some 1) None) ''cx'' [1, 0] = None
   \<and> natural_direction (calibrated_pass (Some 1) (Some 2) None) unitary_node = None
   \<and> gate_length (calibration (Some 1) (Some 2)) ''cx'' [0, 1] = Some 1
   \<and> gate_length (calibration (Some 1) (Some 2)) ''cx'' [1, 0] = Some 2"
  by (simp add: natural_direction_def calibrated_sel truthy_layout_def identity_layout_def
      unitary_node_sel Let_def)

subsection \<open>One walk over the named nodes\<close>

lemma substitute_zipper:
  "substitute_circuit_one (set_nodes d (pre @ nd # rest)) (length pre) input_circuit ws =
     (case splice_result nd input_circuit ws of
        Inl e \<Rightarrow> Inl e
      | Inr new \<Rightarrow> Inr (set_nodes d (pre @ new @ rest)))"
  by (simp add: substitute_circuit_one_def splice_result_def Let_def)

lemma synthesize_node_zipper:
  "synthesize_node self ext eb kak (set_nodes d (pre @ nd # rest)) (length pre) =
     (case synthesize_one self ext eb kak nd of
        Inl e \<Rightarrow> Inl e
      | Inr new \<Rightarrow> Inr (set_nodes d (pre @ new @ rest)))"
  by (simp add: synthesize_node_def synthesize_one_def substitute_node_with_dag_def
      substitute_zipper split: sum.splits option.splits prod.splits)

lemma synthesis_loop_zipper:
  "length rest \<le> n0 \<Longrightarrow>
   synthesis_loop self ext eb kak n0 (named_from names (n0 - length rest) rest)
     (set_nodes d (pre @ rest)) =
     (case synthesize_nodes self ext eb kak names rest of
        Inl e \<Rightarrow> Inl e
      | Inr segs \<Rightarrow> Inr (set_nodes d (pre @ concat segs)))"
proof (induction rest arbitrary: pre)
  case Nil
  then show ?case by simp
next
  case (Cons nd rest)
  have suc: "Suc (n0 - Suc (length rest)) = n0 - length rest"
    using Cons.prems by simp
  have pos: "node_position n0 (set_nodes d (pre @ nd # rest)) (n0 - Suc (length rest)) = length pre"
    using Cons.prems by (simp add: node_position_def)
  have le: "length rest \<le> n0" using Cons.prems by simp
  show ?case
  proof (cases "name (op nd) \<in> set names")
    case False
    with Cons.IH [OF le, of "pre @ [nd]"] show ?thesis
      by (simp add: suc split: sum.splits)
  next
    case True
    show ?thesis
    proof (cases "synthesize_one self ext eb kak nd")
      case (Inl e)
      with True show ?thesis by (simp add: suc pos synthesize_node_zipper)
    next
      case (Inr new)
      with True Cons.IH [OF le, of "pre @ new"] show ?thesis
        by (simp add: suc pos synthesize_node_zipper split: sum.splits)
    qed
  qed
qed

lemma named_nodes_zipper:
  "filter (\<lambda>i. name (op ((pre @ ns) ! i)) \<in> set names) [length pre..<length pre + length ns] =
     named_from names (length pre) ns"
proof (induction ns arbitrary: pre)
  case Nil
  then show ?case by simp
next
  case (Cons nd ns)
  have "[length pre..<length pre + length (nd # ns)] =
          length pre # [Suc (length pre)..<Suc (length pre) + length ns]"
    by (subst upt_rec) simp
  moreover have "filter (\<lambda>i. name (op (((pre @ [nd]) @ ns) ! i)) \<in> set names)
          [length (pre @ [nd])..<length (pre @ [nd]) + length ns] =
        named_from names (length (pre @ [nd])) ns"
    by (rule Cons.IH)
  ultimately show ?case by simp
qed

lemma named_nodes_from: "named_nodes d names = named_from names 0 (nodes d)"
  using named_nodes_zipper [of "[]" "nodes d" names] by (simp add: named_nodes_def)

lemma run_segments:
  "UnitarySynthesis_run pop self ext d =
     (case synthesize_nodes self ext (choose_euler_basis (basis_gates self))
             (choose_kak_gate pop (basis_gates self)) (nodes_to_synthesize self) (nodes d) of
        Inl e \<Rightarrow> Inl e
      | Inr segs \<Rightarrow> Inr (set_nodes d (concat segs)))"
  using synthesis_loop_zipper [of "nodes d" "length (nodes d)" self ext
      "choose_euler_basis (basis_gates self)" "choose_kak_gate pop (basis_gates self)"
      "nodes_to_synthesize self" d "[]"]
  by (simp add: UnitarySynthesis_run_def Let_def named_nodes_from split: sum.splits)

lemma segments_frame:
  "synthesize_nodes self ext eb kak names ns = Inr segs \<Longrightarrow>
   length segs = length ns \<and>
   (\<forall>i<length ns. name (op (ns ! i)) \<notin> set names \<longrightarrow> segs ! i = [ns ! i])"
proof (induction ns arbitrary: segs)
  case Nil
  then show ?case by simp
next
  case (Cons nd ns)
  from Cons.prems obtain seg segs' where segs: "segs = seg # segs'"
    and rest: "synthesize_nodes self ext eb kak names ns = Inr segs'"
    and seg: "name (op nd) \<notin> set names \<longrightarrow> seg = [nd]"
    by (auto split: sum.splits if_splits)
  from Cons.IH [OF rest] have len: "length segs' = length ns"
    and fr: "\<And>i. i < length ns \<Longrightarrow> name (op (ns ! i)) \<notin> set names \<Longrightarrow> segs' ! i = [ns ! i]"
    by auto
  show ?case
  proof (intro conjI allI impI)
    show "length segs = length (nd # ns)" by (simp add: segs len)
  next
    fix i
    assume "i < length (nd # ns)" and "name (op ((nd # ns) ! i)) \<notin> set names"
    then show "segs ! i = [(nd # ns) ! i]"
      using seg fr by (cases i) (auto simp: segs)
  qed
qed

lemma substitute_at:
  assumes "pos < length (nodes d)"
  shows "substitute_circuit_one d pos sd ws =
     (case splice_result (nodes d ! pos) sd ws of
        Inl e \<Rightarrow> Inl e
      | Inr new \<Rightarrow> Inr (set_nodes d (take pos (nodes d) @ new @ drop (Suc pos) (nodes d))))"
  using assms by (simp add: substitute_circuit_one_def splice_result_def Let_def)

subsection \<open>The mirrored synthesis\<close>





















subsection \<open>Swap nodes\<close>

text \<open>
  C10. The names the pass looks for hold swap exactly when pulse optimization is on.
  When it is off and the pass returns a graph, that graph is the old one with a segment
  of nodes in the place of each node, and the segment of every node not named unitary,
  so of every swap node, is the node itself.
\<close>

theorem swap_only_with_pulse_optimize:
  "(''swap'' \<in> set (nodes_to_synthesize self) \<longleftrightarrow> pulse_optimize self)
   \<and> (\<not> pulse_optimize self \<longrightarrow> UnitarySynthesis_run pop self ext d = Inr d' \<longrightarrow>
        (\<exists>segs. nodes d' = concat segs \<and> length segs = length (nodes d)
           \<and> (\<forall>i<length (nodes d).
                 name (op (nodes d ! i)) \<noteq> ''unitary'' \<longrightarrow> segs ! i = [nodes d ! i])))"
proof (intro conjI impI)
  show "''swap'' \<in> set (nodes_to_synthesize self) \<longleftrightarrow> pulse_optimize self"
    by (simp add: nodes_to_synthesize_def)
next
  assume po: "\<not> pulse_optimize self" and run: "UnitarySynthesis_run pop self ext d = Inr d'"
  from run obtain segs where
    s: "synthesize_nodes self ext (choose_euler_basis (basis_gates self))
          (choose_kak_gate pop (basis_gates self)) (nodes_to_synthesize self) (nodes d) = Inr segs"
    and d': "d' = set_nodes d (concat segs)"
    by (auto simp: run_segments split: sum.splits)
  from segments_frame [OF s] po d'
  show "\<exists>segs. nodes d' = concat segs \<and> length segs = length (nodes d)
           \<and> (\<forall>i<length (nodes d).
                 name (op (nodes d ! i)) \<noteq> ''unitary'' \<longrightarrow> segs ! i = [nodes d ! i])"
    by (intro exI [of _ segs]) (simp add: nodes_to_synthesize_def)
qed

lemma swap_circuit_nodes: "nodes swap_circuit = [small_unitary_node, swap_node]"
  by (simp add: swap_circuit_def swap_node_def small_unitary_node_def Let_def
      apply_operation_back_def add_qreg_def empty_dag_def Gate_def)

lemma swap_names:
  "name (op swap_node) = ''swap''" "name (op small_unitary_node) = ''unitary''"
  by (simp_all add: swap_node_def small_unitary_node_def Let_def Gate_def)

lemma plain_sel:
  "\<not> pulse_optimize plain_pass" "basis_gates plain_pass = Some [''u3'', ''cx'']"
  by (simp_all add: plain_pass_def)

lemma small_unitary_synthesis:
  "synthesize_one self rigid_decomposers (Some ''U3'') kak small_unitary_node =
     Inr [synthesized_u3_node]"
  by (simp add: synthesize_one_def synthesis_of_def small_unitary_node_def Let_def
      rigid_decomposers_def example_1q_dag_def splice_result_def rule_wires_def node_wires_def
      bits_in_condition_def same_kind_def spliced_def map_node_def wire_map_def
      apply_operation_back_def add_qreg_def empty_dag_def bits_def set_nodes_def Gate_def
      synthesized_u3_node_def)

lemma plain_run:
  "UnitarySynthesis_run (\<lambda>s. ''cx'') plain_pass rigid_decomposers swap_circuit =
     Inr (set_nodes swap_circuit [synthesized_u3_node, swap_node])"
  by (simp add: run_segments swap_circuit_nodes plain_sel euler_u3 nodes_to_synthesize_def
      small_unitary_synthesis swap_names)

theorem swap_only_with_pulse_optimize_witness:
  "\<not> pulse_optimize plain_pass
   \<and> UnitarySynthesis_run (\<lambda>s. ''cx'') plain_pass rigid_decomposers swap_circuit =
       Inr (set_nodes swap_circuit [synthesized_u3_node, swap_node])
   \<and> name (op (nodes swap_circuit ! 1)) = ''swap''
   \<and> (\<exists>segs. nodes (set_nodes swap_circuit [synthesized_u3_node, swap_node]) = concat segs
         \<and> length segs = length (nodes swap_circuit)
         \<and> (\<forall>i<length (nodes swap_circuit).
               name (op (nodes swap_circuit ! i)) \<noteq> ''unitary'' \<longrightarrow>
               segs ! i = [nodes swap_circuit ! i]))"
proof -
  have a: "\<not> pulse_optimize plain_pass" by (rule plain_sel)
  note b = plain_run
  have c: "name (op (nodes swap_circuit ! 1)) = ''swap''"
    by (simp add: swap_circuit_nodes swap_names)
  from swap_only_with_pulse_optimize [of plain_pass "\<lambda>s. ''cx''" rigid_decomposers swap_circuit
      "set_nodes swap_circuit [synthesized_u3_node, swap_node]"] a b
  have "\<exists>segs. nodes (set_nodes swap_circuit [synthesized_u3_node, swap_node]) = concat segs
         \<and> length segs = length (nodes swap_circuit)
         \<and> (\<forall>i<length (nodes swap_circuit).
               name (op (nodes swap_circuit ! i)) \<noteq> ''unitary'' \<longrightarrow>
               segs ! i = [nodes swap_circuit ! i])"
    by blast
  with a b c show ?thesis by blast
qed

section \<open>Properties of the marginal counts\<close>

text \<open>
  C8, as the code has it. For the counts 000: 10, 011: 5, 101: 3, 110: 2 and the indices
  [0], \<^verbatim>\<open>marginal_counts\<close> returns 0: 12, 1: 8: bit 0 is the last character of a key,
  and the counts of the keys that agree there are added up.
\<close>

theorem marginal_counts_scenario:
  "marginal_counts scenario_counts (Some [0]) False = Inr [(''0'', 12), (''1'', 8)]"
  by code_simp

text \<open>The result the claim names, in either order of its keys, is not what is returned.\<close>

theorem marginal_counts_scenario_counterexample:
  "marginal_counts scenario_counts (Some [0]) False \<noteq> Inr [(''0'', 13), (''1'', 7)]
   \<and> marginal_counts scenario_counts (Some [0]) False \<noteq> Inr [(''1'', 7), (''0'', 13)]"
  by code_simp

end
